theory Spec2Isabelle
  imports Main "HOL-Library.Log_Nat"
begin

section \<open>Quaternion arithmetic modulo an integer (utils/quaternionMath)\<close>

text \<open>
  The source is TypeScript, and its \<open>number\<close> values are double-precision floating-point
  numbers. Every value of the modular code paths is an integer, so a \<open>number\<close> is modelled
  by the integer (\<^typ>\<open>int\<close>) it holds, and every sum, difference and product is rounded to
  the nearest double, as the source does: integers of magnitude up to \<open>2^53\<close> are all doubles,
  larger ones are rounded to 53 significant bits, ties to the even significand. The model
  does not represent \<open>Infinity\<close> and \<open>NaN\<close>: it follows the source for magnitudes below
  \<open>2^1023\<close> and nonzero divisors.

  The one place where the source leaves the integers, the division of \<open>invQ\<close> without a
  modulus, is kept symbolic (see \<open>inv_result\<close>).
\<close>

subsection \<open>Rounding to a double\<close>

text \<open>
  The integer nearest to \<open>x / y\<close> for \<open>x \<ge> 0\<close> and \<open>y > 0\<close>; of two nearest integers the
  even one.
\<close>

definition rne :: "int \<Rightarrow> int \<Rightarrow> int" where
  "rne x y = (if 2 * (x mod y) < y \<or> (2 * (x mod y) = y \<and> even (x div y))
              then x div y else x div y + 1)"

text \<open>
  The double nearest to the integer \<open>x\<close>. An integer of at most 53 bits is a double. One of
  \<open>53 + e\<close> bits is rounded to a multiple of \<open>2^e\<close>.
\<close>

definition fl :: "int \<Rightarrow> int" where
  "fl x = (if bitlen \<bar>x\<bar> \<le> 53 then x
           else sgn x * (rne \<bar>x\<bar> (2 ^ nat (bitlen \<bar>x\<bar> - 53)) * 2 ^ nat (bitlen \<bar>x\<bar> - 53)))"

text \<open>The operators \<open>+\<close>, \<open>-\<close> and \<open>*\<close> of the source on integer-valued doubles.\<close>

definition jadd :: "int \<Rightarrow> int \<Rightarrow> int" where
  "jadd a b = fl (a + b)"

definition jsub :: "int \<Rightarrow> int \<Rightarrow> int" where
  "jsub a b = fl (a - b)"

definition jmul :: "int \<Rightarrow> int \<Rightarrow> int" where
  "jmul a b = fl (a * b)"

text \<open>
  \<open>Math.floor(p / q)\<close> for integer-valued doubles \<open>p\<close> and \<open>q \<noteq> 0\<close>: the quotient is rounded
  to a double, and then taken down to an integer. With \<open>L\<close> the number of bits of the integer
  part of \<open>\<bar>p\<bar> / \<bar>q\<bar>\<close>, the doubles near the quotient are the multiples of \<open>2^(L - 53)\<close>.
  A quotient below one rounds to one only from \<open>1 - 2^-54\<close> on.
\<close>

definition floor_quotient :: "int \<Rightarrow> int \<Rightarrow> int" where
  "floor_quotient p q =
     (let a = \<bar>p\<bar>; b = \<bar>q\<bar>; L = bitlen (a div b); negative = (sgn p * sgn q < 0)
      in if a = 0 then 0
         else if 53 \<le> L then
           (let u = 2 ^ nat (L - 53); v = rne a (b * u) * u
            in if negative then - v else v)
         else if 1 \<le> L then
           (let k = 2 ^ nat (53 - L); n = rne (a * k) b
            in if negative then (- n) div k else n div k)
         else if negative then - 1
         else if b * (2 ^ 54 - 1) \<le> a * 2 ^ 54 then 1 else 0)"

subsection \<open>The remainder operator and \<open>mod\<close>\<close>

text \<open>
  The operator \<open>%\<close> of the source is the truncating remainder: the result has the sign of
  the dividend. It is exact on doubles. For a zero divisor the source yields \<open>NaN\<close>; every
  use below that is proved about has a nonzero divisor.
\<close>

definition js_rem :: "int \<Rightarrow> int \<Rightarrow> int" where
  "js_rem n m = sgn n * (\<bar>n\<bar> mod \<bar>m\<bar>)"

text \<open>\<^verbatim>\<open>export const mod = (n, m) => ((n % m) + m) % m;\<close>\<close>

definition mod_js :: "int \<Rightarrow> int \<Rightarrow> int" where
  "mod_js n m = js_rem (jadd (js_rem n m) m) m"

subsection \<open>The extended Euclidean algorithm\<close>

text \<open>
  The \<open>while (r !== 0)\<close> loop of \<open>modInverse\<close> on its six variables. The loop returns the
  final \<open>old_r\<close>, \<open>old_s\<close> and \<open>old_t\<close>; the result is \<open>None\<close> when the loop does not end.
\<close>

partial_function (option) modInverse_loop ::
  "int \<Rightarrow> int \<Rightarrow> int \<Rightarrow> int \<Rightarrow> int \<Rightarrow> int \<Rightarrow> (int \<times> int \<times> int) option" where
  "modInverse_loop old_r r old_s s old_t t =
     (if r = 0 then Some (old_r, old_s, old_t)
      else modInverse_loop r (jsub old_r (jmul (floor_quotient old_r r) r))
                           s (jsub old_s (jmul (floor_quotient old_r r) s))
                           t (jsub old_t (jmul (floor_quotient old_r r) t)))"

declare modInverse_loop.simps [code]

definition modInverse :: "int \<Rightarrow> int \<Rightarrow> int option" where
  "modInverse a m =
     (case modInverse_loop a m 1 0 0 1 of
        None \<Rightarrow> None
      | Some (old_r, old_s, old_t) \<Rightarrow> Some (mod_js old_s m))"

subsection \<open>Quaternions\<close>

text \<open>
  \<^verbatim>\<open>interface Quaternion { w: number; x: number; y: number; z: number; }\<close>
  The fields carry the prefix \<open>q\<close>, so that \<open>w\<close>, \<open>x\<close>, \<open>y\<close> and \<open>z\<close> stay free for variables.
\<close>

record quaternion =
  qw :: int
  qx :: int
  qy :: int
  qz :: int

definition createQuaternion :: "int \<Rightarrow> int \<Rightarrow> int \<Rightarrow> int \<Rightarrow> quaternion" where
  "createQuaternion w x y z = \<lparr>qw = w, qx = x, qy = y, qz = z\<rparr>"

text \<open>
  An optional argument \<open>modulus?: number\<close> is an \<^typ>\<open>int option\<close>. The source tests it with
  \<open>if (modulus)\<close>, which is false for an absent modulus and for the modulus \<open>0\<close>.
\<close>

fun truthy :: "int option \<Rightarrow> bool" where
  "truthy None = False"
| "truthy (Some m) = (m \<noteq> 0)"

definition addQ :: "quaternion \<Rightarrow> quaternion \<Rightarrow> int option \<Rightarrow> quaternion" where
  "addQ q1 q2 modulus =
     (if truthy modulus then
        \<lparr>qw = mod_js (jadd (qw q1) (qw q2)) (the modulus),
         qx = mod_js (jadd (qx q1) (qx q2)) (the modulus),
         qy = mod_js (jadd (qy q1) (qy q2)) (the modulus),
         qz = mod_js (jadd (qz q1) (qz q2)) (the modulus)\<rparr>
      else
        \<lparr>qw = jadd (qw q1) (qw q2), qx = jadd (qx q1) (qx q2),
         qy = jadd (qy q1) (qy q2), qz = jadd (qz q1) (qz q2)\<rparr>)"

text \<open>
  The four components of the Hamilton product, each evaluated from left to right as the
  source writes it.
\<close>

definition mulQ :: "quaternion \<Rightarrow> quaternion \<Rightarrow> int option \<Rightarrow> quaternion" where
  "mulQ q1 q2 modulus =
     (let w = jsub (jsub (jsub (jmul (qw q1) (qw q2)) (jmul (qx q1) (qx q2)))
                         (jmul (qy q1) (qy q2))) (jmul (qz q1) (qz q2));
          x = jsub (jadd (jadd (jmul (qw q1) (qx q2)) (jmul (qx q1) (qw q2)))
                         (jmul (qy q1) (qz q2))) (jmul (qz q1) (qy q2));
          y = jadd (jadd (jsub (jmul (qw q1) (qy q2)) (jmul (qx q1) (qz q2)))
                         (jmul (qy q1) (qw q2))) (jmul (qz q1) (qx q2));
          z = jadd (jsub (jadd (jmul (qw q1) (qz q2)) (jmul (qx q1) (qy q2)))
                         (jmul (qy q1) (qx q2))) (jmul (qz q1) (qw q2))
      in if truthy modulus then
           \<lparr>qw = mod_js w (the modulus), qx = mod_js x (the modulus),
            qy = mod_js y (the modulus), qz = mod_js z (the modulus)\<rparr>
         else \<lparr>qw = w, qx = x, qy = y, qz = z\<rparr>)"

definition conjugateQ :: "quaternion \<Rightarrow> int option \<Rightarrow> quaternion" where
  "conjugateQ q modulus =
     (if truthy modulus then
        \<lparr>qw = mod_js (qw q) (the modulus), qx = mod_js (- qx q) (the modulus),
         qy = mod_js (- qy q) (the modulus), qz = mod_js (- qz q) (the modulus)\<rparr>
      else \<lparr>qw = qw q, qx = - qx q, qy = - qy q, qz = - qz q\<rparr>)"

definition normSqQ :: "quaternion \<Rightarrow> int option \<Rightarrow> int" where
  "normSqQ q modulus =
     (let val = jadd (jadd (jadd (jmul (qw q) (qw q)) (jmul (qx q) (qx q)))
                           (jmul (qy q) (qy q))) (jmul (qz q) (qz q))
      in if truthy modulus then mod_js val (the modulus) else val)"

text \<open>
  The three ways \<open>invQ\<close> returns: \<open>null\<close>; the modular inverse candidate; and, without a
  modulus, the conjugate divided componentwise by the squared norm. That quotient is a
  fraction in general, so it is kept as the pair of the conjugate and the divisor.
\<close>

datatype inv_result = Null | Inv quaternion | Quotient quaternion int

text \<open>
  \<open>modInverse\<close> has no \<open>throw\<close> and calls nothing that throws, so the \<open>catch\<close> branch of
  the source (\<open>return null\<close>) is never entered and has no counterpart here. The result is
  \<open>None\<close> when the loop of \<open>modInverse\<close> does not end.
\<close>

definition invQ :: "quaternion \<Rightarrow> int option \<Rightarrow> inv_result option" where
  "invQ q modulus =
     (let nSq = normSqQ q modulus
      in if nSq = 0 then Some Null
         else if truthy modulus then
           (case modInverse nSq (the modulus) of
              None \<Rightarrow> None
            | Some nSqInv \<Rightarrow>
                (let conj = conjugateQ q modulus
                 in Some (Inv \<lparr>qw = mod_js (jmul (qw conj) nSqInv) (the modulus),
                               qx = mod_js (jmul (qx conj) nSqInv) (the modulus),
                               qy = mod_js (jmul (qy conj) nSqInv) (the modulus),
                               qz = mod_js (jmul (qz conj) nSqInv) (the modulus)\<rparr>)))
         else Some (Quotient (conjugateQ q None) nSq))"

subsection \<open>Notions used to state the properties\<close>

text \<open>
  The modulus is called prime when it exceeds one and has no divisor strictly between one
  and itself. The range is finite, so the test can be evaluated.
\<close>

definition is_prime :: "int \<Rightarrow> bool" where
  "is_prime m = (1 < m \<and> (\<forall>d\<in>{2..<m}. \<not> d dvd m))"

text \<open>All four components of \<open>q\<close> have magnitude at most \<open>B\<close>.\<close>

definition components_within :: "int \<Rightarrow> quaternion \<Rightarrow> bool" where
  "components_within B q = (\<bar>qw q\<bar> \<le> B \<and> \<bar>qx q\<bar> \<le> B \<and> \<bar>qy q\<bar> \<le> B \<and> \<bar>qz q\<bar> \<le> B)"

text \<open>The units \<open>i\<close>, \<open>j\<close> and \<open>k\<close>.\<close>

definition unit_i :: quaternion where
  "unit_i = createQuaternion 0 1 0 0"

definition unit_j :: quaternion where
  "unit_j = createQuaternion 0 0 1 0"

definition unit_k :: quaternion where
  "unit_k = createQuaternion 0 0 0 1"

section \<open>The simulated exchange (components/SimulationLab)\<close>

text \<open>\<^verbatim>\<open>interface SimulationState\<close> of the type declarations.\<close>

record SimulationState =
  modulus :: int
  baseP :: quaternion
  aliceSecret :: quaternion
  bobSecret :: quaternion
  alicePublic :: "quaternion option"
  bobPublic :: "quaternion option"
  sharedSecretA :: "quaternion option"
  sharedSecretB :: "quaternion option"

definition INITIAL_STATE :: SimulationState where
  "INITIAL_STATE =
     \<lparr>modulus = 13,
      baseP = \<lparr>qw = 1, qx = 2, qy = 3, qz = 4\<rparr>,
      aliceSecret = \<lparr>qw = 2, qx = 1, qy = 0, qz = 1\<rparr>,
      bobSecret = \<lparr>qw = 1, qx = 3, qy = 1, qz = 0\<rparr>,
      alicePublic = None,
      bobPublic = None,
      sharedSecretA = None,
      sharedSecretB = None\<rparr>"

text \<open>
  The component holds two pieces of state that the three operations touch: \<open>state\<close> and
  \<open>log\<close>. Each operation is a function from the component's state to its next state.
  A log entry is the message; the clock time that the source puts in front of it is left
  out. The newest entry is first, as in the source.
\<close>

record SimulationLab =
  state :: SimulationState
  log :: "string list"

definition initial_lab :: SimulationLab where
  "initial_lab = \<lparr>state = INITIAL_STATE, log = []\<rparr>"

definition addLog :: "string \<Rightarrow> SimulationLab \<Rightarrow> SimulationLab" where
  "addLog msg lab = lab\<lparr>log := msg # log lab\<rparr>"

text \<open>
  How a call of an operation ends. \<open>Returned\<close>: it returned, leaving the component in the
  given state. \<open>Resampling\<close>: the supplied random samples ended before
  \<open>generateKeys\<close> had a base and an accepted secret for each party (the resampling
  loops of the source have no bound, and go on drawing). \<open>Hangs\<close>: a loop of \<open>modInverse\<close>
  does not end. \<open>Fractional\<close>: the call multiplied by a \<open>Quotient\<close> of \<open>invQ\<close>, which
  happens for the modulus \<open>0\<close> only and leaves the integers.
\<close>

datatype 'a outcome = Returned 'a | Resampling | Hangs | Fractional

text \<open>What follows a step that returned; the other outcomes end the call.\<close>

fun and_then :: "'a outcome \<Rightarrow> ('a \<Rightarrow> 'b outcome) \<Rightarrow> 'b outcome" where
  "and_then (Returned x) f = f x"
| "and_then Resampling f = Resampling"
| "and_then Hangs f = Hangs"
| "and_then Fractional f = Fractional"

text \<open>
  Randomness: the successive results of \<open>randomQuaternion(mod)\<close> are given as a list.
  \<^verbatim>\<open>let sec = randomQuaternion(mod); while (!invQ(sec, mod)) sec = randomQuaternion(mod);\<close>
  takes samples until \<open>invQ\<close> is not \<open>null\<close>, and returns the accepted sample with the
  samples that are left.
\<close>

fun resample :: "int \<Rightarrow> quaternion list \<Rightarrow> (quaternion \<times> quaternion list) outcome" where
  "resample m [] = Resampling"
| "resample m (sec # rest) =
     (case invQ sec (Some m) of
        None \<Rightarrow> Hangs
      | Some found \<Rightarrow> if found = Null then resample m rest else Returned (sec, rest))"

definition generateKeys :: "SimulationLab \<Rightarrow> quaternion list \<Rightarrow> SimulationLab outcome" where
  "generateKeys lab samples =
     (case samples of
        [] \<Rightarrow> Resampling
      | base # rest \<Rightarrow>
          and_then (resample (modulus (state lab)) rest) (\<lambda>(aliceSec, rest').
          and_then (resample (modulus (state lab)) rest') (\<lambda>(bobSec, rest'').
            Returned (addLog ''Generated new parameters and private keys.''
              (lab\<lparr>state := (state lab)
                  \<lparr>baseP := base,
                   aliceSecret := aliceSec,
                   bobSecret := bobSec,
                   alicePublic := None,
                   bobPublic := None,
                   sharedSecretA := None,
                   sharedSecretB := None\<rparr>\<rparr>)))))"

definition performExchange :: "SimulationLab \<Rightarrow> quaternion list \<Rightarrow> SimulationLab outcome" where
  "performExchange lab samples =
     (let s = state lab
      in case invQ (aliceSecret s) (Some (modulus s)) of
           None \<Rightarrow> Hangs
         | Some aliceInv \<Rightarrow>
             (case invQ (bobSecret s) (Some (modulus s)) of
                None \<Rightarrow> Hangs
              | Some bobInv \<Rightarrow>
                  if aliceInv = Null \<or> bobInv = Null then
                    generateKeys
                      (addLog ''Error: Generated non-invertible secrets. Regenerating...'' lab) samples
                  else
                    (case (aliceInv, bobInv) of
                       (Inv ai, Inv bi) \<Rightarrow>
                         (let alicePub = mulQ (mulQ (aliceSecret s) (baseP s) (Some (modulus s)))
                                              ai (Some (modulus s));
                              bobPub = mulQ (mulQ (bobSecret s) (baseP s) (Some (modulus s)))
                                            bi (Some (modulus s))
                          in Returned (addLog ''Public values computed and exchanged via Conjugation.''
                               (lab\<lparr>state := s\<lparr>alicePublic := Some alicePub,
                                                bobPublic := Some bobPub\<rparr>\<rparr>)))
                     | _ \<Rightarrow> Fractional)))"

definition computeSharedSecret :: "SimulationLab \<Rightarrow> SimulationLab outcome" where
  "computeSharedSecret lab =
     (let s = state lab
      in case (alicePublic s, bobPublic s) of
           (Some alicePub, Some bobPub) \<Rightarrow>
             (case invQ (aliceSecret s) (Some (modulus s)) of
                None \<Rightarrow> Hangs
              | Some aliceInv \<Rightarrow>
                  (case invQ (bobSecret s) (Some (modulus s)) of
                     None \<Rightarrow> Hangs
                   | Some bobInv \<Rightarrow>
                       if aliceInv = Null \<or> bobInv = Null then Returned lab
                       else
                         (case (aliceInv, bobInv) of
                            (Inv ai, Inv bi) \<Rightarrow>
                              (let kA = mulQ (mulQ (aliceSecret s) bobPub (Some (modulus s)))
                                             ai (Some (modulus s));
                                   kB = mulQ (mulQ (bobSecret s) alicePub (Some (modulus s)))
                                             bi (Some (modulus s))
                               in Returned
                                    (addLog (if kA = kB then ''Check: Are they equal? YES''
                                             else ''Check: Are they equal? NO (Expected for non-commutative)'')
                                      (addLog ''Shared values computed.''
                                        (lab\<lparr>state := s\<lparr>sharedSecretA := Some kA,
                                                         sharedSecretB := Some kB\<rparr>\<rparr>))))
                          | _ \<Rightarrow> Fractional)))
         | _ \<Rightarrow> Returned lab)"

text \<open>The equality check \<open>secretsMatch\<close> of the component, on the four fields.\<close>

definition secretsMatch :: "SimulationState \<Rightarrow> bool" where
  "secretsMatch s =
     (case (sharedSecretA s, sharedSecretB s) of
        (Some a, Some b) \<Rightarrow> qw a = qw b \<and> qx a = qx b \<and> qy a = qy b \<and> qz a = qz b
      | _ \<Rightarrow> False)"

subsection \<open>The run on the initial state\<close>

text \<open>
  The component after \<open>performExchange\<close> on the initial state, and after
  \<open>computeSharedSecret\<close> on that, as the evaluation lemmas below establish.
\<close>

definition exchanged_lab :: SimulationLab where
  "exchanged_lab =
     \<lparr>state = INITIAL_STATE
        \<lparr>alicePublic := Some \<lparr>qw = 1, qx = 5, qy = 4, qz = 1\<rparr>,
         bobPublic := Some \<lparr>qw = 1, qx = 4, qy = 10, qz = 11\<rparr>\<rparr>,
      log = [''Public values computed and exchanged via Conjugation.'']\<rparr>"

definition derived_lab :: SimulationLab where
  "derived_lab =
     \<lparr>state = (state exchanged_lab)
        \<lparr>sharedSecretA := Some \<lparr>qw = 1, qx = 4, qy = 3, qz = 11\<rparr>,
         sharedSecretB := Some \<lparr>qw = 1, qx = 10, qy = 2, qz = 4\<rparr>\<rparr>,
      log = [''Check: Are they equal? NO (Expected for non-commutative)'',
             ''Shared values computed.'',
             ''Public values computed and exchanged via Conjugation.'']\<rparr>"

text \<open>
  A component whose first secret is the zero quaternion, which has no inverse, and three
  random samples: a base and two invertible secrets.
\<close>

definition zero_secret_lab :: SimulationLab where
  "zero_secret_lab = initial_lab\<lparr>state := INITIAL_STATE\<lparr>aliceSecret := \<lparr>qw = 0, qx = 0, qy = 0, qz = 0\<rparr>\<rparr>\<rparr>"

definition three_samples :: "quaternion list" where
  "three_samples =
     [\<lparr>qw = 5, qx = 6, qy = 7, qz = 8\<rparr>,
      \<lparr>qw = 2, qx = 1, qy = 0, qz = 1\<rparr>,
      \<lparr>qw = 1, qx = 3, qy = 1, qz = 0\<rparr>]"

definition regenerated_lab :: SimulationLab where
  "regenerated_lab =
     \<lparr>state = INITIAL_STATE\<lparr>baseP := \<lparr>qw = 5, qx = 6, qy = 7, qz = 8\<rparr>\<rparr>,
      log = [''Generated new parameters and private keys.'',
             ''Error: Generated non-invertible secrets. Regenerating...'']\<rparr>"

text \<open>
  The component that \<open>generateKeys\<close> leaves when it is called after the derivation, with the
  base \<open>(5,6,7,8)\<close> and the secrets of the initial state as accepted samples.
\<close>

definition rekeyed_lab :: SimulationLab where
  "rekeyed_lab =
     \<lparr>state = INITIAL_STATE\<lparr>baseP := \<lparr>qw = 5, qx = 6, qy = 7, qz = 8\<rparr>\<rparr>,
      log = ''Generated new parameters and private keys.'' # log derived_lab\<rparr>"



section \<open>Properties of the arithmetic\<close>

subsection \<open>Integers up to \<open>2^53\<close> are not rounded\<close>

lemma fl_exact:
  assumes "\<bar>x\<bar> \<le> 2 ^ 53"
  shows "fl x = x"
proof (cases "\<bar>x\<bar> = 2 ^ 53")
  case True
  then have "x = 2 ^ 53 \<or> x = - (2 ^ 53)" by linarith
  moreover have "fl (2 ^ 53) = 2 ^ 53" "fl (- (2 ^ 53)) = - (2 ^ 53)"
    by code_simp+
  ultimately show ?thesis by auto
next
  case False
  with assms have "\<bar>x\<bar> < 2 ^ nat 53" by simp
  then have "bitlen \<bar>x\<bar> \<le> 53"
    by (simp add: bitlen_le_iff_power)
  then show ?thesis by (simp add: fl_def)
qed

lemma jadd_exact: "\<bar>a + b\<bar> \<le> 2 ^ 53 \<Longrightarrow> jadd a b = a + b"
  by (simp add: jadd_def fl_exact)

lemma jsub_exact: "\<bar>a - b\<bar> \<le> 2 ^ 53 \<Longrightarrow> jsub a b = a - b"
  by (simp add: jsub_def fl_exact)

lemma jmul_exact: "\<bar>a * b\<bar> \<le> 2 ^ 53 \<Longrightarrow> jmul a b = a * b"
  by (simp add: jmul_def fl_exact)

lemma js_rem_nonneg: "0 \<le> n \<Longrightarrow> js_rem n m = n mod \<bar>m\<bar>"
  by (cases "n = 0") (simp_all add: js_rem_def)

lemma js_rem_neg: "n < 0 \<Longrightarrow> js_rem n m = - ((- n) mod \<bar>m\<bar>)"
  by (simp add: js_rem_def)

subsection \<open>\<open>mod\<close> is the mathematical modulo while its sum is not rounded\<close>

lemma js_rem_bounds:
  assumes "0 < m"
  shows "- m < js_rem n m" and "js_rem n m < m"
proof -
  have p: "0 \<le> n mod m" "n mod m < m" "0 \<le> (- n) mod m" "(- n) mod m < m"
    using assms by simp_all
  show "- m < js_rem n m"
  proof (cases "0 \<le> n")
    case True
    then have "js_rem n m = n mod m" using assms by (simp add: js_rem_nonneg)
    with p assms show ?thesis by linarith
  next
    case False
    then have "js_rem n m = - ((- n) mod m)" using assms by (simp add: js_rem_neg)
    with p assms show ?thesis by linarith
  qed
  show "js_rem n m < m"
  proof (cases "0 \<le> n")
    case True
    then have "js_rem n m = n mod m" using assms by (simp add: js_rem_nonneg)
    with p assms show ?thesis by linarith
  next
    case False
    then have "js_rem n m = - ((- n) mod m)" using assms by (simp add: js_rem_neg)
    with p assms show ?thesis by linarith
  qed
qed

lemma mod_js_eq_gen:
  assumes m: "0 < m" and e: "\<bar>js_rem n m + m\<bar> \<le> 2 ^ 53"
  shows "mod_js n m = n mod m"
proof -
  from e have j: "jadd (js_rem n m) m = js_rem n m + m"
    by (rule jadd_exact)
  have pos: "0 \<le> js_rem n m + m"
    using js_rem_bounds(1) [OF m, of n] by simp
  have "mod_js n m = (js_rem n m + m) mod m"
    using m pos by (simp add: mod_js_def j js_rem_nonneg)
  also have "\<dots> = js_rem n m mod m" by simp
  also have "\<dots> = n mod m"
  proof (cases "0 \<le> n")
    case True with m show ?thesis by (simp add: js_rem_nonneg)
  next
    case False with m show ?thesis by (simp add: js_rem_neg mod_minus_eq)
  qed
  finally show ?thesis .
qed

lemma mod_js_eq_52:
  assumes "0 < m" "m \<le> 2 ^ 52"
  shows "mod_js n m = n mod m"
proof -
  from js_rem_bounds [OF assms(1), of n] assms have "\<bar>js_rem n m + m\<bar> \<le> 2 ^ 53"
    by simp
  with assms(1) show ?thesis by (rule mod_js_eq_gen)
qed

subsection \<open>The rounded quotient of a dividend below \<open>2^53\<close> is the floor quotient\<close>

lemma div_between:
  fixes n k d :: int
  assumes "d * k \<le> n" "n < (d + 1) * k"
  shows "n div k = d"
proof -
  from assms have k: "0 < k" by (simp add: algebra_simps)
  have "n = d * k + (n - d * k)" by simp
  moreover have "0 \<le> n - d * k" "n - d * k < k"
    using assms by (simp_all add: algebra_simps)
  ultimately show ?thesis
    by (metis div_mult_self3 div_pos_pos_trivial add.commute add_cancel_right_left k less_irrefl)
qed

lemma neg_div_between:
  fixes n k d :: int
  assumes "d * k < n" "n \<le> (d + 1) * k"
  shows "(- n) div k = - (d + 1)"
proof -
  have "(- (d + 1)) * k \<le> - n" "- n < (- (d + 1) + 1) * k"
    using assms by (simp_all add: algebra_simps)
  then show ?thesis by (rule div_between)
qed

lemma quotient_core:
  fixes a b L :: int
  assumes a: "0 < a" "a < 2 ^ 53" and b: "0 < b"
    and L: "1 \<le> L" "L \<le> 52" "L = bitlen (a div b)"
  shows "rne (a * 2 ^ nat (53 - L)) b div 2 ^ nat (53 - L) = a div b"
    and "(- rne (a * 2 ^ nat (53 - L)) b) div 2 ^ nat (53 - L) = (- a) div b"
proof -
  define k :: int where "k = 2 ^ nat (53 - L)"
  define d where "d = a div b"
  define r0 where "r0 = a mod b"
  define e where "e = (r0 * k) div b"
  define f where "f = (r0 * k) mod b"
  define n where "n = rne (a * k) b"
  have k: "0 < k" by (simp add: k_def)
  have adr: "a = d * b + r0" by (simp add: d_def r0_def)
  have r0: "0 \<le> r0" "r0 < b" using b by (simp_all add: r0_def)
  have d0: "0 \<le> d" using a b by (simp add: d_def pos_imp_zdiv_nonneg_iff)
  have Ld: "L = bitlen d" using L by (simp add: d_def)
  have "0 < d"
  proof (rule ccontr)
    assume "\<not> 0 < d"
    then have "bitlen d = 0" by (simp add: bitlen_eq_zero_iff)
    with L Ld show False by simp
  qed
  then have "2 ^ nat (bitlen d - 1) \<le> d"
    using bitlen_bounds [of d] by simp
  moreover have "nat (bitlen d - 1) = nat L - 1"
    using Ld by (simp add: nat_diff_distrib')
  ultimately have Pd: "2 ^ (nat L - 1) \<le> d" by simp
  define P :: int where "P = 2 ^ (nat L - 1)"
  have P: "0 < P" by (simp add: P_def)
  from Pd have "b * P \<le> b * d"
    using b by (simp add: P_def)
  also have "\<dots> \<le> a" using r0 by (simp add: adr mult.commute)
  finally have bP: "b * P < 2 ^ 53" using a by simp
  have "nat (53 - L) + (nat L - 1) + 1 = 53" using L by simp
  then have "(2::int) ^ 53 = 2 ^ (nat (53 - L) + (nat L - 1) + 1)" by simp
  also have "\<dots> = (2 * k) * P" by (simp add: k_def P_def power_add)
  finally have "b * P < (2 * k) * P" using bP by (simp only:)
  with P have b2k: "b < 2 * k" by (simp only: mult_less_cancel_right_pos)
  have tdiv: "(a * k) div b = d * k + e"
  proof -
    have "a * k = (d * k) * b + r0 * k" by (simp add: adr algebra_simps)
    then show ?thesis using b by (simp add: e_def)
  qed
  have tmod: "(a * k) mod b = f"
  proof -
    have "a * k = (d * k) * b + r0 * k" by (simp add: adr algebra_simps)
    then show ?thesis by (simp add: f_def)
  qed
  have ef: "r0 * k = e * b + f" by (simp add: e_def f_def)
  have f: "0 \<le> f" "f < b" using b by (simp_all add: f_def)
  have e0: "0 \<le> e" using r0 k b by (simp add: e_def pos_imp_zdiv_nonneg_iff)
  have "r0 * k \<le> (b - 1) * k" using r0 k by (simp add: mult_right_mono)
  also have "\<dots> = k * b - k" by (simp add: algebra_simps)
  finally have ebk: "e * b + f \<le> k * b - k" by (simp only: ef)
  have ek: "e < k"
  proof (rule ccontr)
    assume "\<not> e < k"
    then have "k \<le> e" by simp
    then have "k * b \<le> e * b" using b by (simp add: mult_right_mono)
    with ebk f k show False by linarith
  qed
  have n_def': "n = (if 2 * f < b \<or> (2 * f = b \<and> even (d * k + e)) then d * k + e else d * k + e + 1)"
    by (simp add: n_def rne_def tdiv tmod)
  have dk: "(d + 1) * k = d * k + k" by (simp add: algebra_simps)
  have upper: "n < (d + 1) * k"
  proof (cases "e = k - 1")
    case True
    have "(k - 1) * b = k * b - b" by (simp add: algebra_simps)
    with ebk True have "f \<le> b - k" by simp
    with b2k have "2 * f < b" by simp
    with True k show ?thesis by (simp add: n_def' dk)
  next
    case False
    with ek have "e + 1 < k" by simp
    then have "d * k + e + 1 < (d + 1) * k" by (simp add: dk)
    then show ?thesis by (simp add: n_def')
  qed
  have lower: "d * k \<le> n" using e0 by (simp add: n_def')
  from lower upper have "n div k = d" by (rule div_between)
  then show "rne (a * 2 ^ nat (53 - L)) b div 2 ^ nat (53 - L) = a div b"
    by (simp add: n_def k_def d_def)
  have "(- n) div k = (- a) div b"
  proof (cases "r0 = 0")
    case True
    then have "e = 0" "f = 0" by (simp_all add: e_def f_def)
    with b have "n = d * k" by (simp add: n_def')
    moreover from True have "a = d * b" by (simp add: adr)
    moreover have "(- (d * k)) div k = - d" "(- (d * b)) div b = - d"
      using k b by (simp_all flip: mult_minus_left)
    ultimately show ?thesis by simp
  next
    case False
    with r0 have r0p: "0 < r0" by simp
    have "d * k < n"
    proof (cases "e = 0")
      case True
      with ef have "f = r0 * k" by simp
      with r0p k have "k \<le> f" by (simp add: mult_le_cancel_right1)
      with b2k have "b < 2 * f" by simp
      then show ?thesis by (simp add: n_def' True)
    next
      case False
      with e0 have "0 < e" by simp
      then show ?thesis by (simp add: n_def')
    qed
    with upper have "(- n) div k = - (d + 1)"
      by (intro neg_div_between) simp_all
    moreover have "(- a) div b = - (d + 1)"
    proof (rule neg_div_between)
      show "d * b < a" using r0p by (simp add: adr)
      show "a \<le> (d + 1) * b" using r0 by (simp add: adr algebra_simps)
    qed
    ultimately show ?thesis by simp
  qed
  then show "(- rne (a * 2 ^ nat (53 - L)) b) div 2 ^ nat (53 - L) = (- a) div b"
    by (simp add: n_def k_def)
qed

lemma div_by_signs:
  fixes p q :: int
  assumes "p \<noteq> 0" "q \<noteq> 0"
  shows "p div q = (if sgn p * sgn q < 0 then (- \<bar>p\<bar>) div \<bar>q\<bar> else \<bar>p\<bar> div \<bar>q\<bar>)"
proof -
  consider "0 < p" "0 < q" | "0 < p" "q < 0" | "p < 0" "0 < q" | "p < 0" "q < 0"
    using assms by linarith
  then show ?thesis
  proof cases
    case 1 then show ?thesis by simp
  next
    case 2
    then have "sgn p * sgn q < 0" by simp
    moreover have "p div q = (- p) div (- q)" by simp
    ultimately show ?thesis using 2 by simp
  next
    case 3 then show ?thesis by simp
  next
    case 4
    then have "\<not> sgn p * sgn q < 0" by simp
    moreover have "p div q = (- p) div (- q)" by simp
    ultimately show ?thesis using 4 by simp
  qed
qed

lemma floor_quotient_exact:
  assumes p: "\<bar>p\<bar> < 2 ^ 53" and q: "q \<noteq> 0"
  shows "floor_quotient p q = p div q"
proof (cases "p = 0")
  case True
  then show ?thesis by (simp add: floor_quotient_def)
next
  case False
  define a where "a = \<bar>p\<bar>"
  define b where "b = \<bar>q\<bar>"
  define L where "L = bitlen (a div b)"
  have a: "0 < a" "a < 2 ^ 53" using False p by (simp_all add: a_def)
  have b: "0 < b" using q by (simp add: b_def)
  have L0: "0 \<le> L" by (simp add: L_def bitlen_nonneg)
  have signs: "p div q = (if sgn p * sgn q < 0 then (- a) div b else a div b)"
    unfolding a_def b_def using False q by (rule div_by_signs)
  have unfold: "floor_quotient p q =
      (if 53 \<le> L then
         (if sgn p * sgn q < 0 then - (rne a (b * 2 ^ nat (L - 53)) * 2 ^ nat (L - 53))
          else rne a (b * 2 ^ nat (L - 53)) * 2 ^ nat (L - 53))
       else if 1 \<le> L then
         (if sgn p * sgn q < 0 then (- rne (a * 2 ^ nat (53 - L)) b) div 2 ^ nat (53 - L)
          else rne (a * 2 ^ nat (53 - L)) b div 2 ^ nat (53 - L))
       else if sgn p * sgn q < 0 then - 1
       else if b * (2 ^ 54 - 1) \<le> a * 2 ^ 54 then 1 else 0)"
    using a by (simp add: floor_quotient_def Let_def a_def b_def L_def)
  consider "53 \<le> L" | "1 \<le> L" "L \<le> 52" | "L = 0" using L0 by linarith
  then show ?thesis
  proof cases
    case 1
    then have "2 ^ 52 \<le> a div b"
      using bitlen_ge_iff_power [of 53 "a div b"] by (simp add: L_def)
    moreover have "b * (a div b) \<le> a"
      using b mult_div_mod_eq [of b a] pos_mod_sign [of b a] by linarith
    moreover have "b * 2 ^ 52 \<le> b * (a div b)"
      using b \<open>2 ^ 52 \<le> a div b\<close> by (simp only: mult_le_cancel_left_pos)
    ultimately have "b * 2 ^ 52 < 2 ^ 53" using a by linarith
    then have b1: "b = 1" using b by simp
    then have "bitlen a \<le> 53" using a by (simp add: bitlen_le_iff_power)
    with 1 b1 have "L = 53" by (simp add: L_def)
    with b1 have "rne a (b * 2 ^ nat (L - 53)) * 2 ^ nat (L - 53) = a"
      by (simp add: rne_def)
    with 1 b1 show ?thesis by (simp add: unfold signs)
  next
    case 2
    have "L = bitlen (a div b)" by (simp add: L_def)
    from quotient_core [OF a b 2 this] 2 show ?thesis
      by (simp add: unfold signs)
  next
    case 3
    then have "a div b \<le> 0" by (simp add: L_def bitlen_eq_zero_iff)
    moreover have "0 \<le> a div b" using a b by (simp add: pos_imp_zdiv_nonneg_iff)
    ultimately have "a div b = 0" by simp
    with b have ab: "a < b"
      using mult_div_mod_eq [of b a] pos_mod_bound [of b a] by simp
    with a have "\<not> b * (2 ^ 54 - 1) \<le> a * 2 ^ 54" by simp
    moreover have "(- a) div b = - 1"
      using a ab by (intro neg_div_between [of 0 b a, simplified]) simp_all
    moreover have "a div b = 0" using a ab by simp
    ultimately show ?thesis using 3 by (simp add: unfold signs)
  qed
qed

subsection \<open>The extended Euclidean algorithm on operands up to \<open>2^52\<close>\<close>

text \<open>
  The loop is followed from its second round on, where \<open>old_r\<close> and \<open>r\<close> are not negative.
  The coefficients \<open>old_s\<close> and \<open>s\<close> alternate in sign and satisfy
  \<open>old_r * \<bar>s\<bar> + r * \<bar>old_s\<bar> = m\<close>, which keeps them within \<open>m\<close>, so that no step is
  rounded. Nothing is needed of \<open>old_t\<close> and \<open>t\<close>, which the result does not use.
\<close>

lemma modInverse_loop_stop: "modInverse_loop old_r 0 old_s s old_t t = Some (old_r, old_s, old_t)"
  by (subst modInverse_loop.simps) simp

lemma modInverse_loop_step:
  "r \<noteq> 0 \<Longrightarrow> modInverse_loop old_r r old_s s old_t t =
     modInverse_loop r (jsub old_r (jmul (floor_quotient old_r r) r))
                     s (jsub old_s (jmul (floor_quotient old_r r) s))
                     t (jsub old_t (jmul (floor_quotient old_r r) t))"
  by (subst modInverse_loop.simps) simp

lemma abs_alternating:
  fixes u v q :: int
  assumes "u * v \<le> 0" "0 \<le> q"
  shows "\<bar>u - q * v\<bar> = \<bar>u\<bar> + q * \<bar>v\<bar>"
proof -
  from assms(1) consider "0 \<le> u" "v \<le> 0" | "u \<le> 0" "0 \<le> v"
    by (auto simp add: mult_le_0_iff)
  then show ?thesis
  proof cases
    case 1
    then have "q * v \<le> 0" using assms(2) by (simp add: mult_nonneg_nonpos)
    with 1 show ?thesis by (simp add: abs_if)
  next
    case 2
    then have "0 \<le> q * v" using assms(2) by simp
    with 2 show ?thesis by (simp add: abs_if)
  qed
qed

lemma loop_invariant:
  fixes a m :: int
  assumes m: "0 < m" "m \<le> 2 ^ 52"
  shows "0 \<le> r \<Longrightarrow> 0 < old_r \<Longrightarrow> old_r \<le> 2 ^ 52 \<Longrightarrow> r \<le> 2 ^ 52 \<Longrightarrow>
         old_s * s \<le> 0 \<Longrightarrow> old_r * \<bar>s\<bar> + r * \<bar>old_s\<bar> = m \<Longrightarrow> \<bar>old_s\<bar> \<le> m \<Longrightarrow>
         m dvd (old_r - old_s * a) \<Longrightarrow> m dvd (r - s * a) \<Longrightarrow>
         \<exists>g u v. modInverse_loop old_r r old_s s old_t t = Some (g, u, v)
                 \<and> g = gcd old_r r \<and> m dvd (g - u * a) \<and> \<bar>u\<bar> \<le> m"
proof (induction "nat r" arbitrary: old_r r old_s s old_t t rule: less_induct)
  case less
  show ?case
  proof (cases "r = 0")
    case True
    with less.prems show ?thesis
      by (simp add: modInverse_loop_stop)
  next
    case False
    with less.prems have r: "0 < r" by simp
    define q where "q = old_r div r"
    define r' where "r' = old_r mod r"
    define s' where "s' = old_s - q * s"
    have q0: "0 \<le> q" using less.prems(2) r by (simp add: q_def pos_imp_zdiv_nonneg_iff)
    have r': "0 \<le> r'" "r' < r" using r by (simp_all add: r'_def)
    have qr: "q * r = old_r - r'"
      by (simp add: q_def r'_def minus_mod_eq_div_mult)
    have fq: "floor_quotient old_r r = q"
      unfolding q_def using less.prems(2,3) False by (intro floor_quotient_exact) simp_all
    have "\<bar>q * r\<bar> \<le> 2 ^ 53" using r' less.prems(2,3,4) r by (simp add: qr)
    then have e1: "jmul q r = q * r" by (rule jmul_exact)
    have "\<bar>old_r - q * r\<bar> \<le> 2 ^ 53" using r' less.prems(4) r by (simp add: qr)
    then have e2: "jsub old_r (q * r) = r'" using qr by (simp add: jsub_exact)
    have abs': "\<bar>s'\<bar> = \<bar>old_s\<bar> + q * \<bar>s\<bar>"
      unfolding s'_def using less.prems(5) q0 by (rule abs_alternating)
    have ident: "r * \<bar>s'\<bar> + r' * \<bar>s\<bar> = m"
    proof -
      have "r * \<bar>s'\<bar> + r' * \<bar>s\<bar> = r * \<bar>old_s\<bar> + (q * r + r') * \<bar>s\<bar>"
        by (simp add: abs' algebra_simps)
      also have "\<dots> = r * \<bar>old_s\<bar> + old_r * \<bar>s\<bar>" by (simp add: qr)
      finally show ?thesis using less.prems(6) by simp
    qed
    have "0 \<le> r' * \<bar>s\<bar>" using r' by simp
    with ident have "r * \<bar>s'\<bar> \<le> m" by linarith
    moreover have "1 * \<bar>s'\<bar> \<le> r * \<bar>s'\<bar>" using r by (intro mult_right_mono) simp_all
    ultimately have s'm: "\<bar>s'\<bar> \<le> m" by simp
    have "0 \<le> \<bar>old_s\<bar>" by simp
    with abs' s'm have qs: "q * \<bar>s\<bar> \<le> m" by linarith
    have "\<bar>q * s\<bar> = q * \<bar>s\<bar>" using q0 by (simp add: abs_mult)
    with qs m have "\<bar>q * s\<bar> \<le> 2 ^ 53" by simp
    then have e3: "jmul q s = q * s" by (rule jmul_exact)
    have "\<bar>old_s - q * s\<bar> \<le> 2 ^ 53" using s'm m by (simp add: s'_def)
    then have e4: "jsub old_s (q * s) = s'" by (simp add: jsub_exact s'_def)
    have step: "modInverse_loop old_r r old_s s old_t t =
                modInverse_loop r r' s s' t (jsub old_t (jmul q t))"
      using False by (simp add: modInverse_loop_step fq e1 e2 e3 e4)
    have sm: "\<bar>s\<bar> \<le> m"
    proof -
      have "0 \<le> r * \<bar>old_s\<bar>" using r by simp
      with less.prems(6) have "old_r * \<bar>s\<bar> \<le> m" by linarith
      moreover have "1 * \<bar>s\<bar> \<le> old_r * \<bar>s\<bar>"
        using less.prems(2) by (intro mult_right_mono) simp_all
      ultimately show ?thesis by simp
    qed
    have alt: "s * s' \<le> 0"
    proof -
      have "s * s' = old_s * s - q * (s * s)" by (simp add: s'_def algebra_simps)
      moreover have "0 \<le> q * (s * s)" using q0 by simp
      ultimately show ?thesis using less.prems(5) by linarith
    qed
    have d': "m dvd (r' - s' * a)"
    proof -
      have "r' - s' * a = (old_r - old_s * a) - q * (r - s * a)"
        using qr by (simp add: s'_def algebra_simps)
      then show ?thesis using less.prems(8,9) by simp
    qed
    have "nat r' < nat r" using r' by simp
    from less.hyps [OF this r'(1) r less.prems(4) _ alt ident sm less.prems(9) d', of t "jsub old_t (jmul q t)"]
    obtain g u v where
      "modInverse_loop r r' s s' t (jsub old_t (jmul q t)) = Some (g, u, v)"
      "g = gcd r r'" "m dvd (g - u * a)" "\<bar>u\<bar> \<le> m"
      using r' less.prems(4) by auto
    moreover have "gcd r r' = gcd old_r r"
      by (simp add: r'_def gcd_red_int [of old_r r])
    ultimately show ?thesis using step by simp
  qed
qed

lemma loop_from_start:
  fixes a m :: int
  assumes m: "0 < m" "m \<le> 2 ^ 52" and a: "\<bar>a\<bar> \<le> 2 ^ 52"
  shows "\<exists>g u v. modInverse_loop a m 1 0 0 1 = Some (g, u, v)
                 \<and> g = gcd a m \<and> m dvd (g - u * a) \<and> \<bar>u\<bar> \<le> m"
proof -
  define q where "q = a div m"
  define r' where "r' = a mod m"
  have r': "0 \<le> r'" "r' < m" using m by (simp_all add: r'_def)
  have qm: "q * m = a - r'"
    by (simp add: q_def r'_def minus_mod_eq_div_mult)
  have fq: "floor_quotient a m = q"
    unfolding q_def using a m by (intro floor_quotient_exact) simp_all
  have "\<bar>q * m\<bar> \<le> 2 ^ 53" using r' a m by (simp add: qm)
  then have e1: "jmul q m = q * m" by (rule jmul_exact)
  have "\<bar>a - q * m\<bar> \<le> 2 ^ 53" using r' m by (simp add: qm)
  then have e2: "jsub a (q * m) = r'" using qm by (simp add: jsub_exact)
  have e3: "jsub 1 (jmul q 0) = 1" by (simp add: jsub_exact jmul_exact)
  have step: "modInverse_loop a m 1 0 0 1 = modInverse_loop m r' 0 1 1 (jsub 0 (jmul q 1))"
    using m by (simp add: modInverse_loop_step fq e1 e2 e3)
  have d: "m dvd (r' - 1 * a)"
    by (simp add: r'_def mod_eq_dvd_iff [symmetric])
  from loop_invariant [OF m, where r = r' and old_r = m and old_s = 0 and s = 1 and a = a
      and old_t = 1 and t = "jsub 0 (jmul q 1)"]
  obtain g u v where
    "modInverse_loop m r' 0 1 1 (jsub 0 (jmul q 1)) = Some (g, u, v)"
    "g = gcd m r'" "m dvd (g - u * a)" "\<bar>u\<bar> \<le> m"
    using r' m d by auto
  moreover have "gcd m r' = gcd a m"
    by (simp add: r'_def gcd_red_int [of a m])
  ultimately show ?thesis using step by simp
qed

lemma modInverse_bezout:
  assumes "0 < m" "m \<le> 2 ^ 52" "\<bar>a\<bar> \<le> 2 ^ 52"
  shows "\<exists>u. modInverse a m = Some (u mod m) \<and> m dvd (gcd a m - u * a)"
proof -
  from loop_from_start [OF assms] obtain g u v where
    l: "modInverse_loop a m 1 0 0 1 = Some (g, u, v)" and g: "g = gcd a m" and d: "m dvd (g - u * a)"
    by blast
  from l have "modInverse a m = Some (u mod m)"
    using assms(1,2) by (simp add: modInverse_def mod_js_eq_52)
  with g d show ?thesis by blast
qed

lemma modInverse_inverse:
  assumes "0 < m" "m \<le> 2 ^ 52" "\<bar>a\<bar> \<le> 2 ^ 52" "gcd a m = 1"
  shows "\<exists>s. modInverse a m = Some s \<and> 0 \<le> s \<and> s < m \<and> (a * s) mod m = 1 mod m"
proof -
  from modInverse_bezout [OF assms(1-3)] assms(4) obtain u where
    u: "modInverse a m = Some (u mod m)" and d: "m dvd (1 - u * a)"
    by auto
  from d have "1 mod m = (u * a) mod m"
    by (simp add: mod_eq_dvd_iff)
  then have "(a * (u mod m)) mod m = 1 mod m"
    by (simp add: mod_mult_right_eq mult.commute)
  with u assms(1) show ?thesis by simp
qed

lemma inverse_unique:
  assumes "0 \<le> s" "s < m" "0 \<le> s'" "s' < m"
    and s: "(a * s) mod m = 1 mod m" and s': "(a * s') mod m = 1 mod m"
  shows "s' = (s::int)"
proof -
  have "s' mod m = (s' * (1 mod m)) mod m"
    by (simp add: mod_mult_right_eq)
  also have "\<dots> = (s' * (a * s)) mod m"
    by (simp add: s [symmetric] mod_mult_right_eq)
  also have "\<dots> = ((a * s') * s) mod m"
    by (simp add: mult.assoc mult.left_commute mult.commute)
  also have "\<dots> = ((1 mod m) * s) mod m"
    by (simp add: s' [symmetric] mod_mult_left_eq)
  also have "\<dots> = s mod m"
    by (simp add: mod_mult_left_eq)
  finally show ?thesis
    using assms(1-4) by simp
qed

lemma prime_coprime:
  assumes "is_prime m" "0 < n" "n < m"
  shows "gcd n m = 1"
proof -
  let ?g = "gcd n m"
  have "?g dvd n" "?g dvd m" by simp_all
  from assms(2) have "0 < ?g"
    by (simp add: gcd_pos_int)
  from \<open>?g dvd n\<close> assms(2) have "?g \<le> n"
    by (rule zdvd_imp_le)
  with assms(3) have "?g < m" by simp
  show ?thesis
  proof (rule ccontr)
    assume "?g \<noteq> 1"
    with \<open>0 < ?g\<close> have "2 \<le> ?g" by linarith
    with \<open>?g < m\<close> have "?g \<in> {2..<m}" by simp
    with assms(1) \<open>?g dvd m\<close> show False
      by (auto simp add: is_prime_def)
  qed
qed

subsection \<open>Quaternion operations on components up to \<open>2^25\<close>\<close>

lemma fl_exact_le: "- (2 ^ 53) \<le> x \<Longrightarrow> x \<le> 2 ^ 53 \<Longrightarrow> fl x = x"
  by (rule fl_exact) simp

lemma jmul_small:
  assumes "\<bar>a\<bar> \<le> 2 ^ 25" "\<bar>b\<bar> \<le> 2 ^ 25"
  shows "jmul a b = a * b" and "- (2 ^ 50) \<le> a * b" and "a * b \<le> 2 ^ 50"
proof -
  have "\<bar>a\<bar> * \<bar>b\<bar> \<le> 2 ^ 25 * 2 ^ 25"
    using assms by (intro mult_mono) simp_all
  then have b: "\<bar>a * b\<bar> \<le> 2 ^ 50" by (simp add: abs_mult)
  then show "- (2 ^ 50) \<le> a * b" and "a * b \<le> 2 ^ 50" by simp_all
  from b have "\<bar>a * b\<bar> \<le> 2 ^ 53" by simp
  then show "jmul a b = a * b" by (rule jmul_exact)
qed

lemma four_terms_exact:
  fixes p1 p2 p3 p4 :: int
  assumes "- (2 ^ 50) \<le> p1" "p1 \<le> 2 ^ 50" "- (2 ^ 50) \<le> p2" "p2 \<le> 2 ^ 50"
    and "- (2 ^ 50) \<le> p3" "p3 \<le> 2 ^ 50" "- (2 ^ 50) \<le> p4" "p4 \<le> 2 ^ 50"
  shows "jsub (jsub (jsub p1 p2) p3) p4 = p1 - p2 - p3 - p4"
    and "jsub (jadd (jadd p1 p2) p3) p4 = p1 + p2 + p3 - p4"
    and "jadd (jadd (jsub p1 p2) p3) p4 = p1 - p2 + p3 + p4"
    and "jadd (jsub (jadd p1 p2) p3) p4 = p1 + p2 - p3 + p4"
    and "jadd (jadd (jadd p1 p2) p3) p4 = p1 + p2 + p3 + p4"
  using assms by (simp_all add: jadd_def jsub_def fl_exact_le)


lemma normSqQ_exact:
  assumes q: "components_within (2 ^ 25) q" and m: "0 < m" "m \<le> 2 ^ 52"
  shows "normSqQ q (Some m) = (qw q * qw q + qx q * qx q + qy q * qy q + qz q * qz q) mod m"
proof -
  from q have b: "\<bar>qw q\<bar> \<le> 2 ^ 25" "\<bar>qx q\<bar> \<le> 2 ^ 25" "\<bar>qy q\<bar> \<le> 2 ^ 25" "\<bar>qz q\<bar> \<le> 2 ^ 25"
    by (simp_all add: components_within_def)
  note w = jmul_small [OF b(1) b(1)] and x = jmul_small [OF b(2) b(2)]
    and y = jmul_small [OF b(3) b(3)] and z = jmul_small [OF b(4) b(4)]
  have "jadd (jadd (jadd (qw q * qw q) (qx q * qx q)) (qy q * qy q)) (qz q * qz q)
        = qw q * qw q + qx q * qx q + qy q * qy q + qz q * qz q"
    by (rule four_terms_exact(5) [OF w(2,3) x(2,3) y(2,3) z(2,3)])
  with m show ?thesis
    by (simp add: normSqQ_def w(1) x(1) y(1) z(1) mod_js_eq_52)
qed

lemma mulQ_exact:
  assumes a: "components_within (2 ^ 25) q1" and b: "components_within (2 ^ 25) q2" and m: "0 < m" "m \<le> 2 ^ 52"
  shows "mulQ q1 q2 (Some m) =
    \<lparr>qw = (qw q1 * qw q2 - qx q1 * qx q2 - qy q1 * qy q2 - qz q1 * qz q2) mod m,
     qx = (qw q1 * qx q2 + qx q1 * qw q2 + qy q1 * qz q2 - qz q1 * qy q2) mod m,
     qy = (qw q1 * qy q2 - qx q1 * qz q2 + qy q1 * qw q2 + qz q1 * qx q2) mod m,
     qz = (qw q1 * qz q2 + qx q1 * qy q2 - qy q1 * qx q2 + qz q1 * qw q2) mod m\<rparr>"
proof -
  from a have a': "\<bar>qw q1\<bar> \<le> 2 ^ 25" "\<bar>qx q1\<bar> \<le> 2 ^ 25" "\<bar>qy q1\<bar> \<le> 2 ^ 25" "\<bar>qz q1\<bar> \<le> 2 ^ 25"
    by (simp_all add: components_within_def)
  from b have b': "\<bar>qw q2\<bar> \<le> 2 ^ 25" "\<bar>qx q2\<bar> \<le> 2 ^ 25" "\<bar>qy q2\<bar> \<le> 2 ^ 25" "\<bar>qz q2\<bar> \<le> 2 ^ 25"
    by (simp_all add: components_within_def)
  note ww = jmul_small [OF a'(1) b'(1)] and wx = jmul_small [OF a'(1) b'(2)]
    and wy = jmul_small [OF a'(1) b'(3)] and wz = jmul_small [OF a'(1) b'(4)]
    and xw = jmul_small [OF a'(2) b'(1)] and xx = jmul_small [OF a'(2) b'(2)]
    and xy = jmul_small [OF a'(2) b'(3)] and xz = jmul_small [OF a'(2) b'(4)]
    and yw = jmul_small [OF a'(3) b'(1)] and yx = jmul_small [OF a'(3) b'(2)]
    and yy = jmul_small [OF a'(3) b'(3)] and yz = jmul_small [OF a'(3) b'(4)]
    and zw = jmul_small [OF a'(4) b'(1)] and zx = jmul_small [OF a'(4) b'(2)]
    and zy = jmul_small [OF a'(4) b'(3)] and zz = jmul_small [OF a'(4) b'(4)]
  note sums =
    four_terms_exact(1) [OF ww(2,3) xx(2,3) yy(2,3) zz(2,3)]
    four_terms_exact(2) [OF wx(2,3) xw(2,3) yz(2,3) zy(2,3)]
    four_terms_exact(3) [OF wy(2,3) xz(2,3) yw(2,3) zx(2,3)]
    four_terms_exact(4) [OF wz(2,3) xy(2,3) yx(2,3) zw(2,3)]
  show ?thesis
    using m
    by (simp add: mulQ_def ww(1) wx(1) wy(1) wz(1) xw(1) xx(1) xy(1) xz(1)
        yw(1) yx(1) yy(1) yz(1) zw(1) zx(1) zy(1) zz(1) sums mod_js_eq_52)
qed

lemma conjugate_products:
  fixes w x y z s m :: int
  assumes one: "((w * w + x * x + y * y + z * z) * s) mod m = 1"
  shows "(w * ((w * s) mod m) - x * ((- x * s) mod m) - y * ((- y * s) mod m) - z * ((- z * s) mod m)) mod m = 1"
    and "(w * ((- x * s) mod m) + x * ((w * s) mod m) + y * ((- z * s) mod m) - z * ((- y * s) mod m)) mod m = 0"
    and "(w * ((- y * s) mod m) - x * ((- z * s) mod m) + y * ((w * s) mod m) + z * ((- x * s) mod m)) mod m = 0"
    and "(w * ((- z * s) mod m) + x * ((- y * s) mod m) - y * ((- x * s) mod m) + z * ((w * s) mod m)) mod m = 0"
    and "(((w * s) mod m) * w - ((- x * s) mod m) * x - ((- y * s) mod m) * y - ((- z * s) mod m) * z) mod m = 1"
    and "(((w * s) mod m) * x + ((- x * s) mod m) * w + ((- y * s) mod m) * z - ((- z * s) mod m) * y) mod m = 0"
    and "(((w * s) mod m) * y - ((- x * s) mod m) * z + ((- y * s) mod m) * w + ((- z * s) mod m) * x) mod m = 0"
    and "(((w * s) mod m) * z + ((- x * s) mod m) * y - ((- y * s) mod m) * x + ((- z * s) mod m) * w) mod m = 0"
proof -
  note cong = mod_diff_cong mod_add_cong mod_mult_cong refl mod_mod_trivial
  have "(w * ((w * s) mod m) - x * ((- x * s) mod m) - y * ((- y * s) mod m) - z * ((- z * s) mod m)) mod m
      = (w * (w * s) - x * (- x * s) - y * (- y * s) - z * (- z * s)) mod m"
    by (intro cong)
  also have "w * (w * s) - x * (- x * s) - y * (- y * s) - z * (- z * s) = (w * w + x * x + y * y + z * z) * s"
    by (simp add: algebra_simps)
  finally show "(w * ((w * s) mod m) - x * ((- x * s) mod m) - y * ((- y * s) mod m) - z * ((- z * s) mod m)) mod m = 1"
    by (simp only: one)
  have "(w * ((- x * s) mod m) + x * ((w * s) mod m) + y * ((- z * s) mod m) - z * ((- y * s) mod m)) mod m
      = (w * (- x * s) + x * (w * s) + y * (- z * s) - z * (- y * s)) mod m"
    by (intro cong)
  also have "w * (- x * s) + x * (w * s) + y * (- z * s) - z * (- y * s) = 0"
    by (simp add: algebra_simps)
  finally show "(w * ((- x * s) mod m) + x * ((w * s) mod m) + y * ((- z * s) mod m) - z * ((- y * s) mod m)) mod m = 0"
    by (simp only: mod_0)
  have "(w * ((- y * s) mod m) - x * ((- z * s) mod m) + y * ((w * s) mod m) + z * ((- x * s) mod m)) mod m
      = (w * (- y * s) - x * (- z * s) + y * (w * s) + z * (- x * s)) mod m"
    by (intro cong)
  also have "w * (- y * s) - x * (- z * s) + y * (w * s) + z * (- x * s) = 0"
    by (simp add: algebra_simps)
  finally show "(w * ((- y * s) mod m) - x * ((- z * s) mod m) + y * ((w * s) mod m) + z * ((- x * s) mod m)) mod m = 0"
    by (simp only: mod_0)
  have "(w * ((- z * s) mod m) + x * ((- y * s) mod m) - y * ((- x * s) mod m) + z * ((w * s) mod m)) mod m
      = (w * (- z * s) + x * (- y * s) - y * (- x * s) + z * (w * s)) mod m"
    by (intro cong)
  also have "w * (- z * s) + x * (- y * s) - y * (- x * s) + z * (w * s) = 0"
    by (simp add: algebra_simps)
  finally show "(w * ((- z * s) mod m) + x * ((- y * s) mod m) - y * ((- x * s) mod m) + z * ((w * s) mod m)) mod m = 0"
    by (simp only: mod_0)
  have "(((w * s) mod m) * w - ((- x * s) mod m) * x - ((- y * s) mod m) * y - ((- z * s) mod m) * z) mod m
      = ((w * s) * w - (- x * s) * x - (- y * s) * y - (- z * s) * z) mod m"
    by (intro cong)
  also have "(w * s) * w - (- x * s) * x - (- y * s) * y - (- z * s) * z = (w * w + x * x + y * y + z * z) * s"
    by (simp add: algebra_simps)
  finally show "(((w * s) mod m) * w - ((- x * s) mod m) * x - ((- y * s) mod m) * y - ((- z * s) mod m) * z) mod m = 1"
    by (simp only: one)
  have "(((w * s) mod m) * x + ((- x * s) mod m) * w + ((- y * s) mod m) * z - ((- z * s) mod m) * y) mod m
      = ((w * s) * x + (- x * s) * w + (- y * s) * z - (- z * s) * y) mod m"
    by (intro cong)
  also have "(w * s) * x + (- x * s) * w + (- y * s) * z - (- z * s) * y = 0"
    by (simp add: algebra_simps)
  finally show "(((w * s) mod m) * x + ((- x * s) mod m) * w + ((- y * s) mod m) * z - ((- z * s) mod m) * y) mod m = 0"
    by (simp only: mod_0)
  have "(((w * s) mod m) * y - ((- x * s) mod m) * z + ((- y * s) mod m) * w + ((- z * s) mod m) * x) mod m
      = ((w * s) * y - (- x * s) * z + (- y * s) * w + (- z * s) * x) mod m"
    by (intro cong)
  also have "(w * s) * y - (- x * s) * z + (- y * s) * w + (- z * s) * x = 0"
    by (simp add: algebra_simps)
  finally show "(((w * s) mod m) * y - ((- x * s) mod m) * z + ((- y * s) mod m) * w + ((- z * s) mod m) * x) mod m = 0"
    by (simp only: mod_0)
  have "(((w * s) mod m) * z + ((- x * s) mod m) * y - ((- y * s) mod m) * x + ((- z * s) mod m) * w) mod m
      = ((w * s) * z + (- x * s) * y - (- y * s) * x + (- z * s) * w) mod m"
    by (intro cong)
  also have "(w * s) * z + (- x * s) * y - (- y * s) * x + (- z * s) * w = 0"
    by (simp add: algebra_simps)
  finally show "(((w * s) mod m) * z + ((- x * s) mod m) * y - ((- y * s) mod m) * x + ((- z * s) mod m) * w) mod m = 0"
    by (simp only: mod_0)
qed

lemma invQ_exact:
  assumes q: "components_within (2 ^ 25) q" and m: "0 < m" "m \<le> 2 ^ 25"
    and n: "normSqQ q (Some m) \<noteq> 0"
    and s: "modInverse (normSqQ q (Some m)) m = Some s" "0 \<le> s" "s < m"
  shows "invQ q (Some m) =
    Some (Inv \<lparr>qw = (qw q * s) mod m, qx = (- qx q * s) mod m,
               qy = (- qy q * s) mod m, qz = (- qz q * s) mod m\<rparr>)"
proof -
  from m have m52: "m \<le> 2 ^ 52" by simp
  have r: "0 \<le> c mod m" "c mod m < m" for c
    using m by simp_all
  have e: "jmul (c mod m) s = (c mod m) * s" for c
  proof (rule jmul_small(1))
    show "\<bar>c mod m\<bar> \<le> 2 ^ 25" using r [of c] m by linarith
    show "\<bar>s\<bar> \<le> 2 ^ 25" using s(2,3) m by linarith
  qed
  show ?thesis
    using m n s(1)
    by (simp add: invQ_def Let_def conjugateQ_def mod_js_eq_52 [OF m(1) m52] e mod_mult_left_eq)
qed

subsection \<open>Evaluation on the initial state\<close>

lemma prime_13: "is_prime 13"
  unfolding is_prime_def by code_simp

lemma invQ_aliceSecret: "invQ \<lparr>qw = 2, qx = 1, qy = 0, qz = 1\<rparr> (Some 13) = Some (Inv \<lparr>qw = 9, qx = 2, qy = 0, qz = 2\<rparr>)"
  by code_simp

lemma invQ_bobSecret: "invQ \<lparr>qw = 1, qx = 3, qy = 1, qz = 0\<rparr> (Some 13) = Some (Inv \<lparr>qw = 6, qx = 8, qy = 7, qz = 0\<rparr>)"
  by code_simp

lemma invQ_zero: "invQ \<lparr>qw = 0, qx = 0, qy = 0, qz = 0\<rparr> (Some 13) = Some Null"
  by code_simp

lemma alicePublic_value:
  "mulQ (mulQ \<lparr>qw = 2, qx = 1, qy = 0, qz = 1\<rparr> \<lparr>qw = 1, qx = 2, qy = 3, qz = 4\<rparr> (Some 13))
        \<lparr>qw = 9, qx = 2, qy = 0, qz = 2\<rparr> (Some 13) = \<lparr>qw = 1, qx = 5, qy = 4, qz = 1\<rparr>"
  by code_simp

lemma bobPublic_value:
  "mulQ (mulQ \<lparr>qw = 1, qx = 3, qy = 1, qz = 0\<rparr> \<lparr>qw = 1, qx = 2, qy = 3, qz = 4\<rparr> (Some 13))
        \<lparr>qw = 6, qx = 8, qy = 7, qz = 0\<rparr> (Some 13) = \<lparr>qw = 1, qx = 4, qy = 10, qz = 11\<rparr>"
  by code_simp

lemma sharedSecretA_value:
  "mulQ (mulQ \<lparr>qw = 2, qx = 1, qy = 0, qz = 1\<rparr> \<lparr>qw = 1, qx = 4, qy = 10, qz = 11\<rparr> (Some 13))
        \<lparr>qw = 9, qx = 2, qy = 0, qz = 2\<rparr> (Some 13) = \<lparr>qw = 1, qx = 4, qy = 3, qz = 11\<rparr>"
  by code_simp

lemma sharedSecretB_value:
  "mulQ (mulQ \<lparr>qw = 1, qx = 3, qy = 1, qz = 0\<rparr> \<lparr>qw = 1, qx = 5, qy = 4, qz = 1\<rparr> (Some 13))
        \<lparr>qw = 6, qx = 8, qy = 7, qz = 0\<rparr> (Some 13) = \<lparr>qw = 1, qx = 10, qy = 2, qz = 4\<rparr>"
  by code_simp

lemma performExchange_initial: "performExchange initial_lab samples = Returned exchanged_lab"
  by (simp add: performExchange_def initial_lab_def INITIAL_STATE_def exchanged_lab_def addLog_def
      invQ_aliceSecret invQ_bobSecret alicePublic_value bobPublic_value)

lemma computeSharedSecret_exchanged: "computeSharedSecret exchanged_lab = Returned derived_lab"
  by (simp add: computeSharedSecret_def INITIAL_STATE_def exchanged_lab_def derived_lab_def addLog_def
      invQ_aliceSecret invQ_bobSecret sharedSecretA_value sharedSecretB_value)

lemma performExchange_zero_secret: "performExchange zero_secret_lab three_samples = Returned regenerated_lab"
  by (simp add: performExchange_def generateKeys_def zero_secret_lab_def three_samples_def
      regenerated_lab_def initial_lab_def INITIAL_STATE_def addLog_def
      invQ_aliceSecret invQ_bobSecret invQ_zero)

section \<open>Properties of the exchange\<close>

subsection \<open>When \<open>invQ\<close> is \<open>null\<close>\<close>

lemma invQ_Null_iff: "invQ q mopt = Some Null \<longleftrightarrow> normSqQ q mopt = 0"
  by (simp add: invQ_def Let_def split: option.splits)

subsection \<open>The resampling loop\<close>

lemma resample_accepts:
  assumes "\<forall>r\<in>set rejected. invQ r (Some m) = Some Null"
    and "invQ a (Some m) = Some found" and "found \<noteq> Null"
  shows "resample m (rejected @ a # rest) = Returned (a, rest)"
  using assms by (induction rejected) simp_all

lemma resample_rejects:
  "\<forall>r\<in>set rs. invQ r (Some m) = Some Null \<Longrightarrow> resample m rs = Resampling"
  by (induction rs) simp_all

lemma resample_Returned:
  "resample m rs = Returned (a, rest) \<Longrightarrow> \<exists>found. invQ a (Some m) = Some found \<and> found \<noteq> Null"
  by (induction rs) (auto split: option.splits if_splits)

lemma and_then_Returned:
  "and_then x f = Returned y \<Longrightarrow> \<exists>v. x = Returned v \<and> f v = Returned y"
  by (cases x) simp_all

lemma generateKeys_Returned:
  assumes "generateKeys lab samples = Returned lab'"
  shows "\<exists>base aliceSec bobSec.
           lab' = addLog ''Generated new parameters and private keys.''
                    (lab\<lparr>state := (state lab)
                        \<lparr>baseP := base, aliceSecret := aliceSec, bobSecret := bobSec,
                         alicePublic := None, bobPublic := None,
                         sharedSecretA := None, sharedSecretB := None\<rparr>\<rparr>)"
proof -
  let ?m = "modulus (state lab)"
  from assms obtain base rest where s: "samples = base # rest"
    by (auto simp add: generateKeys_def split: list.splits)
  from assms s obtain aliceSec rest' where ra: "resample ?m rest = Returned (aliceSec, rest')"
    by (auto simp add: generateKeys_def dest!: and_then_Returned)
  from assms s ra obtain bobSec rest'' where rb: "resample ?m rest' = Returned (bobSec, rest'')"
    by (auto simp add: generateKeys_def dest!: and_then_Returned)
  from assms s ra rb
  have "lab' = addLog ''Generated new parameters and private keys.''
                    (lab\<lparr>state := (state lab)
                        \<lparr>baseP := base, aliceSecret := aliceSec, bobSecret := bobSec,
                         alicePublic := None, bobPublic := None,
                         sharedSecretA := None, sharedSecretB := None\<rparr>\<rparr>)"
    by (simp add: generateKeys_def)
  then show ?thesis by blast
qed

lemma generateKeys_returns:
  assumes "\<forall>r\<in>set rejectedA. invQ r (Some (modulus (state lab))) = Some Null"
    and "invQ a (Some (modulus (state lab))) = Some foundA" and "foundA \<noteq> Null"
    and "\<forall>r\<in>set rejectedB. invQ r (Some (modulus (state lab))) = Some Null"
    and "invQ b (Some (modulus (state lab))) = Some foundB" and "foundB \<noteq> Null"
  shows "generateKeys lab (base # rejectedA @ a # rejectedB @ b # rest) =
           Returned (addLog ''Generated new parameters and private keys.''
                    (lab\<lparr>state := (state lab)
                        \<lparr>baseP := base, aliceSecret := a, bobSecret := b,
                         alicePublic := None, bobPublic := None,
                         sharedSecretA := None, sharedSecretB := None\<rparr>\<rparr>))"
  by (simp add: generateKeys_def resample_accepts [OF assms(1,2,3)] resample_accepts [OF assms(4,5,6)])

lemma generateKeys_keeps_resampling:
  "\<forall>r\<in>set rest. invQ r (Some (modulus (state lab))) = Some Null \<Longrightarrow>
   generateKeys lab (base # rest) = Resampling"
  by (simp add: generateKeys_def resample_rejects)

lemma computeSharedSecret_guard:
  assumes "alicePublic (state lab) = None \<or> bobPublic (state lab) = None
         \<or> (\<exists>bobInv. invQ (aliceSecret (state lab)) (Some (modulus (state lab))) = Some Null
                \<and> invQ (bobSecret (state lab)) (Some (modulus (state lab))) = Some bobInv)
         \<or> (\<exists>aliceInv. invQ (aliceSecret (state lab)) (Some (modulus (state lab))) = Some aliceInv
                \<and> invQ (bobSecret (state lab)) (Some (modulus (state lab))) = Some Null)"
  shows "computeSharedSecret lab = Returned lab"
  using assms by (auto simp add: computeSharedSecret_def Let_def split: option.splits)

section \<open>The claims\<close>

text \<open>
  Claim C1. On the initial state (modulus 13, base \<open>(1,2,3,4)\<close>, secrets \<open>(2,1,0,1)\<close> and
  \<open>(1,3,1,0)\<close>) the exchange phase stores the public values \<open>(1,5,4,1)\<close> and \<open>(1,4,10,11)\<close>,
  and the derivation phase then stores the shared values \<open>(1,4,3,11)\<close> and \<open>(1,10,2,4)\<close>.
  The two shared values are different quaternions, and the component's equality check
  \<open>secretsMatch\<close> is false.
\<close>

theorem toy_exchange_disagrees:
  "performExchange initial_lab samples = Returned exchanged_lab
   \<and> alicePublic (state exchanged_lab) = Some \<lparr>qw = 1, qx = 5, qy = 4, qz = 1\<rparr>
   \<and> bobPublic (state exchanged_lab) = Some \<lparr>qw = 1, qx = 4, qy = 10, qz = 11\<rparr>
   \<and> computeSharedSecret exchanged_lab = Returned derived_lab
   \<and> sharedSecretA (state derived_lab) = Some \<lparr>qw = 1, qx = 4, qy = 3, qz = 11\<rparr>
   \<and> sharedSecretB (state derived_lab) = Some \<lparr>qw = 1, qx = 10, qy = 2, qz = 4\<rparr>
   \<and> sharedSecretA (state derived_lab) \<noteq> sharedSecretB (state derived_lab)
   \<and> \<not> secretsMatch (state derived_lab)"
proof -
  have "alicePublic (state exchanged_lab) = Some \<lparr>qw = 1, qx = 5, qy = 4, qz = 1\<rparr>"
    and "bobPublic (state exchanged_lab) = Some \<lparr>qw = 1, qx = 4, qy = 10, qz = 11\<rparr>"
    by (simp_all add: exchanged_lab_def)
  moreover have a: "sharedSecretA (state derived_lab) = Some \<lparr>qw = 1, qx = 4, qy = 3, qz = 11\<rparr>"
    and b: "sharedSecretB (state derived_lab) = Some \<lparr>qw = 1, qx = 10, qy = 2, qz = 4\<rparr>"
    by (simp_all add: derived_lab_def)
  moreover from a b have "sharedSecretA (state derived_lab) \<noteq> sharedSecretB (state derived_lab)"
    by simp
  moreover from a b have "\<not> secretsMatch (state derived_lab)"
    by (simp add: secretsMatch_def)
  ultimately show ?thesis
    using performExchange_initial computeSharedSecret_exchanged by blast
qed

text \<open>
  Claim C2, as stated: for every modulus \<open>m > 2\<close> the product of \<open>i\<close> and \<open>j\<close> is \<open>k\<close>.
  For the modulus \<open>2^53\<close> the sum \<open>1 + m\<close> inside \<open>mod\<close> is rounded to \<open>m\<close>, and the
  product is the zero quaternion.
\<close>

theorem units_counterexample:
  "mulQ unit_i unit_j (Some (2 ^ 53)) = \<lparr>qw = 0, qx = 0, qy = 0, qz = 0\<rparr>
   \<and> mulQ unit_i unit_j (Some (2 ^ 53)) \<noteq> unit_k"
proof -
  have "mulQ unit_i unit_j (Some (2 ^ 53)) = \<lparr>qw = 0, qx = 0, qy = 0, qz = 0\<rparr>"
    by code_simp
  moreover have "unit_k \<noteq> \<lparr>qw = 0, qx = 0, qy = 0, qz = 0\<rparr>"
    by (simp add: unit_k_def createQuaternion_def)
  ultimately show ?thesis by simp
qed

text \<open>
  Claim C2, amended. For every modulus \<open>m\<close> with \<open>2 < m < 2^53\<close>: \<open>mulQ i j m\<close> is \<open>k\<close>,
  \<open>mulQ j i m\<close> is \<open>k\<close> with each component multiplied by \<open>mod (-1) m\<close>, which is
  \<open>(0, 0, 0, m - 1)\<close>, and the two products differ.
\<close>

theorem units_do_not_commute:
  assumes "2 < m" and "m < 2 ^ 53"
  shows "mulQ unit_i unit_j (Some m) = unit_k
       \<and> mulQ unit_j unit_i (Some m) =
           \<lparr>qw = mod_js (- 1) m * qw unit_k, qx = mod_js (- 1) m * qx unit_k,
            qy = mod_js (- 1) m * qy unit_k, qz = mod_js (- 1) m * qz unit_k\<rparr>
       \<and> mulQ unit_j unit_i (Some m) = \<lparr>qw = 0, qx = 0, qy = 0, qz = m - 1\<rparr>
       \<and> mulQ unit_i unit_j (Some m) \<noteq> mulQ unit_j unit_i (Some m)"
proof -
  from assms have m: "0 < m" by simp
  have small: "fl 0 = 0" "fl 1 = 1" "fl (- 1) = - 1"
    by (simp_all add: fl_exact)
  have r: "js_rem 0 m = 0" "js_rem 1 m = 1" "js_rem (- 1) m = - 1"
    using assms by (simp_all add: js_rem_def)
  have z: "mod_js 0 m = 0"
    using m assms by (subst mod_js_eq_gen) (simp_all add: r)
  have o: "mod_js 1 m = 1"
    using m assms by (subst mod_js_eq_gen) (simp_all add: r)
  have n: "mod_js (- 1) m = m - 1"
    using m assms by (subst mod_js_eq_gen) (simp_all add: r zmod_minus1)
  have ij: "mulQ unit_i unit_j (Some m) = unit_k"
    using m by (simp add: mulQ_def unit_i_def unit_j_def unit_k_def createQuaternion_def
        jmul_def jadd_def jsub_def small z o)
  have ji: "mulQ unit_j unit_i (Some m) = \<lparr>qw = 0, qx = 0, qy = 0, qz = m - 1\<rparr>"
    using m by (simp add: mulQ_def unit_i_def unit_j_def createQuaternion_def
        jmul_def jadd_def jsub_def small z n)
  have sc: "\<lparr>qw = mod_js (- 1) m * qw unit_k, qx = mod_js (- 1) m * qx unit_k,
            qy = mod_js (- 1) m * qy unit_k, qz = mod_js (- 1) m * qz unit_k\<rparr>
          = \<lparr>qw = 0, qx = 0, qy = 0, qz = m - 1\<rparr>"
    by (simp add: n unit_k_def createQuaternion_def)
  have "unit_k \<noteq> \<lparr>qw = 0, qx = 0, qy = 0, qz = m - 1\<rparr>"
    using assms by (simp add: unit_k_def createQuaternion_def)
  with ij ji sc show ?thesis by simp
qed

theorem units_do_not_commute_witness:
  "(2::int) < 2 ^ 53 - 1 \<and> (2::int) ^ 53 - 1 < 2 ^ 53
     \<and> mulQ unit_i unit_j (Some (2 ^ 53 - 1)) = unit_k
     \<and> mulQ unit_j unit_i (Some (2 ^ 53 - 1)) = \<lparr>qw = 0, qx = 0, qy = 0, qz = 2 ^ 53 - 1 - 1\<rparr>
     \<and> mulQ unit_i unit_j (Some (2 ^ 53 - 1)) \<noteq> mulQ unit_j unit_i (Some (2 ^ 53 - 1))"
proof -
  have h: "(2::int) < 2 ^ 53 - 1" "(2::int) ^ 53 - 1 < 2 ^ 53" by simp_all
  from h units_do_not_commute [OF h] show ?thesis by blast
qed

text \<open>
  Claim C3, as stated: for every quaternion \<open>q\<close> and prime \<open>m\<close> with a nonzero squared norm
  modulo \<open>m\<close>, the product of \<open>q\<close> and \<open>invQ q m\<close> is \<open>(1, 0, 0, 0)\<close>. For \<open>m = 13\<close> and
  \<open>q = (94906267, 2, 0, 0)\<close> the square of the first component exceeds \<open>2^53\<close> and is
  rounded: the squared norm comes out as \<open>4\<close>, \<open>invQ\<close> returns \<open>(10, 6, 0, 0)\<close>, and the
  product is \<open>(11, 0, 0, 0)\<close>.
\<close>

theorem invQ_inverse_counterexample:
  "is_prime 13
   \<and> normSqQ \<lparr>qw = 94906267, qx = 2, qy = 0, qz = 0\<rparr> (Some 13) = 4
   \<and> invQ \<lparr>qw = 94906267, qx = 2, qy = 0, qz = 0\<rparr> (Some 13) = Some (Inv \<lparr>qw = 10, qx = 6, qy = 0, qz = 0\<rparr>)
   \<and> mulQ \<lparr>qw = 94906267, qx = 2, qy = 0, qz = 0\<rparr> \<lparr>qw = 10, qx = 6, qy = 0, qz = 0\<rparr> (Some 13)
       = \<lparr>qw = 11, qx = 0, qy = 0, qz = 0\<rparr>"
proof -
  have "normSqQ \<lparr>qw = 94906267, qx = 2, qy = 0, qz = 0\<rparr> (Some 13) = 4"
    by code_simp
  moreover have "invQ \<lparr>qw = 94906267, qx = 2, qy = 0, qz = 0\<rparr> (Some 13) = Some (Inv \<lparr>qw = 10, qx = 6, qy = 0, qz = 0\<rparr>)"
    by code_simp
  moreover have "mulQ \<lparr>qw = 94906267, qx = 2, qy = 0, qz = 0\<rparr> \<lparr>qw = 10, qx = 6, qy = 0, qz = 0\<rparr> (Some 13)
       = \<lparr>qw = 11, qx = 0, qy = 0, qz = 0\<rparr>"
    by code_simp
  ultimately show ?thesis using prime_13 by blast
qed

text \<open>
  Claim C3, amended. For a prime modulus \<open>m \<le> 2^25\<close> and a quaternion \<open>q\<close> whose components
  have magnitude at most \<open>2^25\<close> and whose squared norm modulo \<open>m\<close> is not zero,
  \<open>invQ q m\<close> is not \<open>null\<close>, and its product with \<open>q\<close> on either side is \<open>(1, 0, 0, 0)\<close>.
\<close>

theorem invQ_inverse:
  assumes p: "is_prime m" and mb: "m \<le> 2 ^ 25" and q: "components_within (2 ^ 25) q"
    and n: "normSqQ q (Some m) \<noteq> 0"
  shows "\<exists>qi. invQ q (Some m) = Some (Inv qi)
           \<and> mulQ q qi (Some m) = \<lparr>qw = 1, qx = 0, qy = 0, qz = 0\<rparr>
           \<and> mulQ qi q (Some m) = \<lparr>qw = 1, qx = 0, qy = 0, qz = 0\<rparr>"
proof -
  from p have m: "0 < m" "1 < m"
    by (simp_all add: is_prime_def)
  from mb have m52: "m \<le> 2 ^ 52" by simp
  let ?N = "qw q * qw q + qx q * qx q + qy q * qy q + qz q * qz q"
  let ?n = "normSqQ q (Some m)"
  have nN: "?n = ?N mod m"
    using q m(1) m52 by (rule normSqQ_exact)
  moreover have "0 \<le> ?N mod m" "?N mod m < m"
    using m(1) by simp_all
  ultimately have nb: "0 < ?n" "?n < m"
    using n by linarith+
  with p have "gcd ?n m = 1"
    by (rule prime_coprime)
  moreover from nb m52 have "\<bar>?n\<bar> \<le> 2 ^ 52" by linarith
  moreover note m(1) m52
  ultimately have "\<exists>s. modInverse ?n m = Some s \<and> 0 \<le> s \<and> s < m \<and> (?n * s) mod m = 1 mod m"
    by (intro modInverse_inverse)
  then obtain s where s: "modInverse ?n m = Some s" "0 \<le> s" "s < m"
    and inv: "(?n * s) mod m = 1 mod m"
    by blast
  from inv have one: "(?N * s) mod m = 1"
    using m(2) by (simp add: nN mod_mult_left_eq)
  let ?qi = "\<lparr>qw = (qw q * s) mod m, qx = (- qx q * s) mod m,
             qy = (- qy q * s) mod m, qz = (- qz q * s) mod m\<rparr>"
  have i: "invQ q (Some m) = Some (Inv ?qi)"
    using q m(1) mb n s by (rule invQ_exact)
  have c: "0 \<le> c mod m" "c mod m < m" for c
    using m(1) by simp_all
  have qi: "components_within (2 ^ 25) ?qi"
    unfolding components_within_def quaternion.simps
    using c [of "qw q * s"] c [of "- qx q * s"] c [of "- qy q * s"] c [of "- qz q * s"] mb
    by linarith
  have r: "mulQ q ?qi (Some m) = \<lparr>qw = 1, qx = 0, qy = 0, qz = 0\<rparr>"
    unfolding mulQ_exact [OF q qi m(1) m52] quaternion.simps
    by (simp only: conjugate_products(1-4) [OF one])
  have l: "mulQ ?qi q (Some m) = \<lparr>qw = 1, qx = 0, qy = 0, qz = 0\<rparr>"
    unfolding mulQ_exact [OF qi q m(1) m52] quaternion.simps
    by (simp only: conjugate_products(5-8) [OF one])
  from i r l show ?thesis by blast
qed

theorem invQ_inverse_witness:
  "is_prime 13 \<and> (13::int) \<le> 2 ^ 25 \<and> components_within (2 ^ 25) \<lparr>qw = 2, qx = 1, qy = 0, qz = 1\<rparr>
   \<and> normSqQ \<lparr>qw = 2, qx = 1, qy = 0, qz = 1\<rparr> (Some 13) \<noteq> 0
   \<and> invQ \<lparr>qw = 2, qx = 1, qy = 0, qz = 1\<rparr> (Some 13) = Some (Inv \<lparr>qw = 9, qx = 2, qy = 0, qz = 2\<rparr>)
   \<and> mulQ \<lparr>qw = 2, qx = 1, qy = 0, qz = 1\<rparr> \<lparr>qw = 9, qx = 2, qy = 0, qz = 2\<rparr> (Some 13) = \<lparr>qw = 1, qx = 0, qy = 0, qz = 0\<rparr>
   \<and> mulQ \<lparr>qw = 9, qx = 2, qy = 0, qz = 2\<rparr> \<lparr>qw = 2, qx = 1, qy = 0, qz = 1\<rparr> (Some 13) = \<lparr>qw = 1, qx = 0, qy = 0, qz = 0\<rparr>"
proof -
  have b: "(13::int) \<le> 2 ^ 25" by simp
  have c: "components_within (2 ^ 25) \<lparr>qw = 2, qx = 1, qy = 0, qz = 1\<rparr>"
    by (simp add: components_within_def)
  have n: "normSqQ \<lparr>qw = 2, qx = 1, qy = 0, qz = 1\<rparr> (Some 13) \<noteq> 0"
    by code_simp
  from invQ_inverse [OF prime_13 b c n] show ?thesis
    using prime_13 b c n by (simp add: invQ_aliceSecret)
qed

text \<open>
  Claim C4. The claim asks for \<open>null\<close> whenever the squared norm \<open>n\<close> is zero or
  \<open>gcd n m \<noteq> 1\<close>. The source returns \<open>null\<close> exactly when \<open>n\<close> is zero
  (\<open>invQ_Null_iff\<close>). For \<open>q = (1,1,0,0)\<close> and \<open>m = 4\<close> the squared norm is \<open>2\<close>, which shares
  the factor \<open>2\<close> with the modulus, and \<open>invQ\<close> returns the quaternion \<open>(1,3,0,0)\<close>, which is
  not an inverse: its product with \<open>q\<close> is \<open>(2,0,0,0)\<close>.
\<close>

theorem invQ_shared_factor_not_absent:
  "normSqQ \<lparr>qw = 1, qx = 1, qy = 0, qz = 0\<rparr> (Some 4) = 2
   \<and> gcd (2::int) 4 = 2
   \<and> invQ \<lparr>qw = 1, qx = 1, qy = 0, qz = 0\<rparr> (Some 4) = Some (Inv \<lparr>qw = 1, qx = 3, qy = 0, qz = 0\<rparr>)
   \<and> mulQ \<lparr>qw = 1, qx = 1, qy = 0, qz = 0\<rparr> \<lparr>qw = 1, qx = 3, qy = 0, qz = 0\<rparr> (Some 4) = \<lparr>qw = 2, qx = 0, qy = 0, qz = 0\<rparr>"
proof -
  have "normSqQ \<lparr>qw = 1, qx = 1, qy = 0, qz = 0\<rparr> (Some 4) = 2"
    by code_simp
  moreover have "gcd (2::int) 4 = 2"
    by code_simp
  moreover have "invQ \<lparr>qw = 1, qx = 1, qy = 0, qz = 0\<rparr> (Some 4) = Some (Inv \<lparr>qw = 1, qx = 3, qy = 0, qz = 0\<rparr>)"
    by code_simp
  moreover have "mulQ \<lparr>qw = 1, qx = 1, qy = 0, qz = 0\<rparr> \<lparr>qw = 1, qx = 3, qy = 0, qz = 0\<rparr> (Some 4) = \<lparr>qw = 2, qx = 0, qy = 0, qz = 0\<rparr>"
    by code_simp
  ultimately show ?thesis by blast
qed



text \<open>
  Claim C6, as stated: with a secret that has no inverse, the exchange phase fails with a
  condition of its own that the caller receives. The source does not fail. On the component
  with the zero quaternion as first secret, \<open>performExchange\<close> returns as any other call
  does, and the component it leaves has a new base and new secrets taken from the random
  samples, with two more log lines.
\<close>

theorem performExchange_fails_counterexample:
  "invQ (aliceSecret (state zero_secret_lab)) (Some (modulus (state zero_secret_lab))) = Some Null
   \<and> performExchange zero_secret_lab three_samples = Returned regenerated_lab"
  using performExchange_zero_secret
  by (simp add: zero_secret_lab_def initial_lab_def INITIAL_STATE_def invQ_zero)

text \<open>
  Claim C6, amended. If \<open>invQ\<close> is \<open>null\<close> for one of the secrets, \<open>performExchange\<close> puts
  the message \<open>Error: Generated non-invertible secrets. Regenerating...\<close> in the log and
  then does what \<open>generateKeys\<close> does, on every sequence of random samples. When the samples
  are a base, then samples for which \<open>invQ\<close> is \<open>null\<close> followed by one for which it is not,
  and the same once more, the call returns: the state has that base and those two accepted
  samples as secrets, all four derived fields are absent, and the log starts with the message
  of \<open>generateKeys\<close> followed by the error message.
\<close>

theorem performExchange_regenerates:
  assumes "invQ (aliceSecret (state lab)) (Some (modulus (state lab))) = Some aliceInv"
    and "invQ (bobSecret (state lab)) (Some (modulus (state lab))) = Some bobInv"
    and "aliceInv = Null \<or> bobInv = Null"
    and "\<forall>r\<in>set rejectedA. invQ r (Some (modulus (state lab))) = Some Null"
    and "invQ a (Some (modulus (state lab))) = Some foundA" and "foundA \<noteq> Null"
    and "\<forall>r\<in>set rejectedB. invQ r (Some (modulus (state lab))) = Some Null"
    and "invQ b (Some (modulus (state lab))) = Some foundB" and "foundB \<noteq> Null"
  shows "performExchange lab (base # rejectedA @ a # rejectedB @ b # rest) =
           Returned
             \<lparr>state = (state lab)
                \<lparr>baseP := base, aliceSecret := a, bobSecret := b,
                 alicePublic := None, bobPublic := None,
                 sharedSecretA := None, sharedSecretB := None\<rparr>,
              log = ''Generated new parameters and private keys.''
                    # ''Error: Generated non-invertible secrets. Regenerating...'' # log lab\<rparr>
       \<and> (\<forall>samples. performExchange lab samples =
             generateKeys (addLog ''Error: Generated non-invertible secrets. Regenerating...'' lab) samples)"
proof -
  let ?lab = "addLog ''Error: Generated non-invertible secrets. Regenerating...'' lab"
  have e: "performExchange lab samples = generateKeys ?lab samples" for samples
    using assms(1,2,3) by (auto simp add: performExchange_def Let_def)
  have m: "modulus (state ?lab) = modulus (state lab)"
    by (simp add: addLog_def)
  have "generateKeys ?lab (base # rejectedA @ a # rejectedB @ b # rest) =
           Returned (addLog ''Generated new parameters and private keys.''
                    (?lab\<lparr>state := (state ?lab)
                        \<lparr>baseP := base, aliceSecret := a, bobSecret := b,
                         alicePublic := None, bobPublic := None,
                         sharedSecretA := None, sharedSecretB := None\<rparr>\<rparr>))"
    using assms(4-9) unfolding m [symmetric] by (rule generateKeys_returns)
  then have "performExchange lab (base # rejectedA @ a # rejectedB @ b # rest) =
           Returned
             \<lparr>state = (state lab)
                \<lparr>baseP := base, aliceSecret := a, bobSecret := b,
                 alicePublic := None, bobPublic := None,
                 sharedSecretA := None, sharedSecretB := None\<rparr>,
              log = ''Generated new parameters and private keys.''
                    # ''Error: Generated non-invertible secrets. Regenerating...'' # log lab\<rparr>"
    by (simp add: e addLog_def)
  with e show ?thesis by blast
qed

theorem performExchange_regenerates_witness:
  "invQ (aliceSecret (state zero_secret_lab)) (Some (modulus (state zero_secret_lab))) = Some Null
   \<and> invQ (bobSecret (state zero_secret_lab)) (Some (modulus (state zero_secret_lab))) = Some (Inv \<lparr>qw = 6, qx = 8, qy = 7, qz = 0\<rparr>)
   \<and> invQ \<lparr>qw = 2, qx = 1, qy = 0, qz = 1\<rparr> (Some (modulus (state zero_secret_lab))) = Some (Inv \<lparr>qw = 9, qx = 2, qy = 0, qz = 2\<rparr>)
   \<and> invQ \<lparr>qw = 1, qx = 3, qy = 1, qz = 0\<rparr> (Some (modulus (state zero_secret_lab))) = Some (Inv \<lparr>qw = 6, qx = 8, qy = 7, qz = 0\<rparr>)
   \<and> performExchange zero_secret_lab
        (\<lparr>qw = 5, qx = 6, qy = 7, qz = 8\<rparr> # [] @ \<lparr>qw = 2, qx = 1, qy = 0, qz = 1\<rparr> # [] @ \<lparr>qw = 1, qx = 3, qy = 1, qz = 0\<rparr> # [])
       = Returned
           \<lparr>state = (state zero_secret_lab)
              \<lparr>baseP := \<lparr>qw = 5, qx = 6, qy = 7, qz = 8\<rparr>,
               aliceSecret := \<lparr>qw = 2, qx = 1, qy = 0, qz = 1\<rparr>,
               bobSecret := \<lparr>qw = 1, qx = 3, qy = 1, qz = 0\<rparr>,
               alicePublic := None, bobPublic := None,
               sharedSecretA := None, sharedSecretB := None\<rparr>,
            log = ''Generated new parameters and private keys.''
                  # ''Error: Generated non-invertible secrets. Regenerating...'' # log zero_secret_lab\<rparr>"
proof -
  have m: "modulus (state zero_secret_lab) = 13"
    by (simp add: zero_secret_lab_def INITIAL_STATE_def)
  have a: "invQ (aliceSecret (state zero_secret_lab)) (Some (modulus (state zero_secret_lab))) = Some Null"
    by (simp add: zero_secret_lab_def INITIAL_STATE_def invQ_zero)
  have b: "invQ (bobSecret (state zero_secret_lab)) (Some (modulus (state zero_secret_lab))) = Some (Inv \<lparr>qw = 6, qx = 8, qy = 7, qz = 0\<rparr>)"
    by (simp add: zero_secret_lab_def INITIAL_STATE_def invQ_bobSecret)
  have n: "Null = Null \<or> Inv \<lparr>qw = 6, qx = 8, qy = 7, qz = 0\<rparr> = Null" by simp
  have r: "\<forall>r\<in>set []. invQ r (Some (modulus (state zero_secret_lab))) = Some Null" by simp
  have sa: "invQ \<lparr>qw = 2, qx = 1, qy = 0, qz = 1\<rparr> (Some (modulus (state zero_secret_lab))) = Some (Inv \<lparr>qw = 9, qx = 2, qy = 0, qz = 2\<rparr>)"
    by (simp add: m invQ_aliceSecret)
  have sb: "invQ \<lparr>qw = 1, qx = 3, qy = 1, qz = 0\<rparr> (Some (modulus (state zero_secret_lab))) = Some (Inv \<lparr>qw = 6, qx = 8, qy = 7, qz = 0\<rparr>)"
    by (simp add: m invQ_bobSecret)
  have ne: "Inv \<lparr>qw = 9, qx = 2, qy = 0, qz = 2\<rparr> \<noteq> Null" "Inv \<lparr>qw = 6, qx = 8, qy = 7, qz = 0\<rparr> \<noteq> Null"
    by simp_all
  from performExchange_regenerates [OF a b n r sa ne(1) r sb ne(2), of "\<lparr>qw = 5, qx = 6, qy = 7, qz = 8\<rparr>" "[]"]
  show ?thesis using a b sa sb by blast
qed

text \<open>
  Claim C7, as stated: for every integer \<open>a\<close> and positive \<open>m\<close> the result of \<open>mod\<close> is
  congruent to \<open>a\<close>. For \<open>a = 2^53 - 2\<close> and \<open>m = 2^53 - 1\<close> the sum inside \<open>mod\<close> is rounded,
  and the result is \<open>2^53 - 3\<close>.
\<close>

theorem mod_js_modulo_counterexample:
  "mod_js (2 ^ 53 - 2) (2 ^ 53 - 1) = 2 ^ 53 - 3
   \<and> \<not> (2 ^ 53 - 1) dvd (mod_js (2 ^ 53 - 2) (2 ^ 53 - 1) - (2 ^ 53 - 2))"
proof -
  have v: "mod_js (2 ^ 53 - 2) (2 ^ 53 - 1) = 2 ^ 53 - 3"
    by code_simp
  have "\<not> ((2::int) ^ 53 - 1) dvd (2 ^ 53 - 3 - (2 ^ 53 - 2))"
    by simp
  with v show ?thesis by simp
qed

text \<open>
  Claim C7, amended. For every integer \<open>a\<close> and every \<open>m\<close> with \<open>0 < m \<le> 2^52\<close>, \<open>mod a m\<close>
  lies in \<open>[0, m)\<close> and differs from \<open>a\<close> by a multiple of \<open>m\<close>. For \<open>a = -7\<close> and \<open>m = 3\<close>
  it is \<open>2\<close>, where the remainder operator alone gives \<open>-1\<close>.
\<close>

theorem mod_js_modulo:
  "0 < m \<Longrightarrow> m \<le> 2 ^ 52 \<Longrightarrow> 0 \<le> mod_js a m \<and> mod_js a m < m \<and> m dvd (mod_js a m - a)"
  by (simp add: mod_js_eq_52 mod_eq_dvd_iff [symmetric])

theorem mod_js_modulo_witness:
  "(0::int) < 3 \<and> (3::int) \<le> 2 ^ 52 \<and> mod_js (- 7) 3 = 2 \<and> js_rem (- 7) 3 = - 1
   \<and> 0 \<le> mod_js (- 7) 3 \<and> mod_js (- 7) 3 < 3 \<and> 3 dvd (mod_js (- 7) 3 - (- 7))"
proof -
  have h: "(0::int) < 3" "(3::int) \<le> 2 ^ 52" by simp_all
  have v: "mod_js (- 7) 3 = 2" "js_rem (- 7) 3 = - 1" by code_simp+
  from h v mod_js_modulo [OF h, of "- 7"] show ?thesis by simp
qed

text \<open>
  Claim C8, as stated: for every \<open>a\<close> and positive \<open>m\<close> with \<open>gcd a m = 1\<close> the result of
  \<open>modInverse\<close> is the inverse of \<open>a\<close>. For \<open>a = 2^52\<close> and \<open>m = 2^53 - 1\<close> the loop ends with
  the coefficient \<open>2\<close>, the final \<open>mod\<close> rounds \<open>2 + m\<close>, and the result is \<open>1\<close>.
\<close>

theorem modInverse_counterexample:
  "gcd ((2::int) ^ 52) (2 ^ 53 - 1) = 1
   \<and> modInverse (2 ^ 52) (2 ^ 53 - 1) = Some 1
   \<and> ((2 ^ 52) * 1) mod (2 ^ 53 - 1) \<noteq> (1::int) mod (2 ^ 53 - 1)"
proof -
  have "gcd ((2::int) ^ 52) (2 ^ 53 - 1) = 1" by code_simp
  moreover have "modInverse (2 ^ 52) (2 ^ 53 - 1) = Some 1" by code_simp
  moreover have "((2 ^ 52) * 1) mod (2 ^ 53 - 1) \<noteq> (1::int) mod (2 ^ 53 - 1)" by simp
  ultimately show ?thesis by blast
qed

text \<open>
  Claim C8, amended. For \<open>0 < m \<le> 2^52\<close> and \<open>\<bar>a\<bar> \<le> 2^52\<close> with \<open>gcd a m = 1\<close>, the loop
  of \<open>modInverse a m\<close> ends, the result lies in \<open>[0, m)\<close>, its product with \<open>a\<close> is congruent
  to \<open>1\<close> modulo \<open>m\<close>, and it is the only such number in \<open>[0, m)\<close>. For \<open>a = 3\<close> and \<open>m = 7\<close>
  the loop ends with the coefficient \<open>-2\<close>, and the result is \<open>5\<close>.
\<close>

theorem modInverse_unique_inverse:
  assumes "0 < m" and "m \<le> 2 ^ 52" and "\<bar>a\<bar> \<le> 2 ^ 52" and "gcd a m = 1"
  shows "\<exists>s. modInverse a m = Some s \<and> 0 \<le> s \<and> s < m
       \<and> (a * s) mod m = 1 mod m
       \<and> (\<forall>s'. 0 \<le> s' \<and> s' < m \<and> (a * s') mod m = 1 mod m \<longrightarrow> s' = s)"
proof -
  from modInverse_inverse [OF assms] obtain s where
    s: "modInverse a m = Some s" "0 \<le> s" "s < m" "(a * s) mod m = 1 mod m"
    by blast
  have "s' = s" if "0 \<le> s'" "s' < m" "(a * s') mod m = 1 mod m" for s'
    using s(2,3) that(1,2) s(4) that(3) by (rule inverse_unique)
  with s show ?thesis by blast
qed

theorem modInverse_unique_inverse_witness:
  "(0::int) < 7 \<and> (7::int) \<le> 2 ^ 52 \<and> \<bar>3::int\<bar> \<le> 2 ^ 52 \<and> gcd (3::int) 7 = 1
   \<and> modInverse_loop 3 7 1 0 0 1 = Some (1, - 2, 1) \<and> modInverse 3 7 = Some 5"
proof -
  have h: "(0::int) < 7" "(7::int) \<le> 2 ^ 52" "\<bar>3::int\<bar> \<le> 2 ^ 52" by simp_all
  have g: "gcd (3::int) 7 = 1" by code_simp
  have l: "modInverse_loop 3 7 1 0 0 1 = Some (1, - 2, 1)" by code_simp
  have five: "(0::int) \<le> 5 \<and> (5::int) < 7 \<and> (3 * 5) mod 7 = (1::int) mod 7" by simp
  from modInverse_unique_inverse [OF h g] obtain s where
    s: "modInverse 3 7 = Some s"
    and u: "\<forall>s'. 0 \<le> s' \<and> s' < 7 \<and> (3 * s') mod 7 = 1 mod 7 \<longrightarrow> s' = s"
    by blast
  from u have "(0::int) \<le> 5 \<and> (5::int) < 7 \<and> (3 * 5) mod 7 = (1::int) mod 7 \<longrightarrow> 5 = s"
    by (rule spec)
  then have "5 = s" using five by (rule mp)
  with s have "modInverse 3 7 = Some 5" by simp
  with h g l show ?thesis by blast
qed

text \<open>
  Claim C9. \<open>generateKeys\<close> returns when the samples are a base, then samples for which
  \<open>invQ\<close> is \<open>null\<close> followed by one for which it is not, and the same once more; the state
  it leaves has the sampled base and secrets, and its four derived fields \<open>alicePublic\<close>,
  \<open>bobPublic\<close>, \<open>sharedSecretA\<close> and \<open>sharedSecretB\<close> are absent, whatever the state was
  before. On any samples, a call that returns leaves the four derived fields absent.
\<close>

theorem generateKeys_resets_derived:
  assumes "\<forall>r\<in>set rejectedA. invQ r (Some (modulus (state lab))) = Some Null"
    and "invQ a (Some (modulus (state lab))) = Some foundA" and "foundA \<noteq> Null"
    and "\<forall>r\<in>set rejectedB. invQ r (Some (modulus (state lab))) = Some Null"
    and "invQ b (Some (modulus (state lab))) = Some foundB" and "foundB \<noteq> Null"
  shows "(\<exists>lab'. generateKeys lab (base # rejectedA @ a # rejectedB @ b # rest) = Returned lab'
            \<and> alicePublic (state lab') = None \<and> bobPublic (state lab') = None
            \<and> sharedSecretA (state lab') = None \<and> sharedSecretB (state lab') = None
            \<and> baseP (state lab') = base \<and> aliceSecret (state lab') = a
            \<and> bobSecret (state lab') = b \<and> modulus (state lab') = modulus (state lab))
       \<and> (\<forall>samples lab'. generateKeys lab samples = Returned lab' \<longrightarrow>
              alicePublic (state lab') = None \<and> bobPublic (state lab') = None
            \<and> sharedSecretA (state lab') = None \<and> sharedSecretB (state lab') = None)"
proof -
  have "\<exists>lab'. generateKeys lab (base # rejectedA @ a # rejectedB @ b # rest) = Returned lab'
            \<and> alicePublic (state lab') = None \<and> bobPublic (state lab') = None
            \<and> sharedSecretA (state lab') = None \<and> sharedSecretB (state lab') = None
            \<and> baseP (state lab') = base \<and> aliceSecret (state lab') = a
            \<and> bobSecret (state lab') = b \<and> modulus (state lab') = modulus (state lab)"
    by (simp add: generateKeys_returns [OF assms] addLog_def)
  moreover have "alicePublic (state lab') = None \<and> bobPublic (state lab') = None
            \<and> sharedSecretA (state lab') = None \<and> sharedSecretB (state lab') = None"
    if "generateKeys lab samples = Returned lab'" for samples lab'
    using generateKeys_Returned [OF that] by (auto simp add: addLog_def)
  ultimately show ?thesis by blast
qed

theorem generateKeys_resets_derived_witness:
  "invQ \<lparr>qw = 0, qx = 0, qy = 0, qz = 0\<rparr> (Some (modulus (state derived_lab))) = Some Null
   \<and> invQ \<lparr>qw = 2, qx = 1, qy = 0, qz = 1\<rparr> (Some (modulus (state derived_lab))) = Some (Inv \<lparr>qw = 9, qx = 2, qy = 0, qz = 2\<rparr>)
   \<and> invQ \<lparr>qw = 1, qx = 3, qy = 1, qz = 0\<rparr> (Some (modulus (state derived_lab))) = Some (Inv \<lparr>qw = 6, qx = 8, qy = 7, qz = 0\<rparr>)
   \<and> alicePublic (state derived_lab) = Some \<lparr>qw = 1, qx = 5, qy = 4, qz = 1\<rparr>
   \<and> sharedSecretA (state derived_lab) = Some \<lparr>qw = 1, qx = 4, qy = 3, qz = 11\<rparr>
   \<and> generateKeys derived_lab (\<lparr>qw = 5, qx = 6, qy = 7, qz = 8\<rparr> # \<lparr>qw = 0, qx = 0, qy = 0, qz = 0\<rparr>
        # \<lparr>qw = 2, qx = 1, qy = 0, qz = 1\<rparr> # [\<lparr>qw = 1, qx = 3, qy = 1, qz = 0\<rparr>])
       = Returned rekeyed_lab
   \<and> alicePublic (state rekeyed_lab) = None \<and> bobPublic (state rekeyed_lab) = None
   \<and> sharedSecretA (state rekeyed_lab) = None \<and> sharedSecretB (state rekeyed_lab) = None"
proof -
  have m: "modulus (state derived_lab) = 13"
    by (simp add: derived_lab_def exchanged_lab_def INITIAL_STATE_def)
  have rj: "\<forall>r\<in>set [\<lparr>qw = 0, qx = 0, qy = 0, qz = 0\<rparr>]. invQ r (Some (modulus (state derived_lab))) = Some Null"
    by (simp add: m invQ_zero)
  have r0: "\<forall>r\<in>set []. invQ r (Some (modulus (state derived_lab))) = Some Null" by simp
  have sa: "invQ \<lparr>qw = 2, qx = 1, qy = 0, qz = 1\<rparr> (Some (modulus (state derived_lab))) = Some (Inv \<lparr>qw = 9, qx = 2, qy = 0, qz = 2\<rparr>)"
    by (simp add: m invQ_aliceSecret)
  have sb: "invQ \<lparr>qw = 1, qx = 3, qy = 1, qz = 0\<rparr> (Some (modulus (state derived_lab))) = Some (Inv \<lparr>qw = 6, qx = 8, qy = 7, qz = 0\<rparr>)"
    by (simp add: m invQ_bobSecret)
  have ne: "Inv \<lparr>qw = 9, qx = 2, qy = 0, qz = 2\<rparr> \<noteq> Null" "Inv \<lparr>qw = 6, qx = 8, qy = 7, qz = 0\<rparr> \<noteq> Null"
    by simp_all
  have before: "alicePublic (state derived_lab) = Some \<lparr>qw = 1, qx = 5, qy = 4, qz = 1\<rparr>"
    "sharedSecretA (state derived_lab) = Some \<lparr>qw = 1, qx = 4, qy = 3, qz = 11\<rparr>"
    by (simp_all add: derived_lab_def exchanged_lab_def)
  have run: "generateKeys derived_lab (\<lparr>qw = 5, qx = 6, qy = 7, qz = 8\<rparr> # \<lparr>qw = 0, qx = 0, qy = 0, qz = 0\<rparr>
        # \<lparr>qw = 2, qx = 1, qy = 0, qz = 1\<rparr> # [\<lparr>qw = 1, qx = 3, qy = 1, qz = 0\<rparr>])
     = Returned rekeyed_lab"
    by (simp add: generateKeys_def rekeyed_lab_def derived_lab_def exchanged_lab_def INITIAL_STATE_def
        addLog_def invQ_aliceSecret invQ_bobSecret invQ_zero)
  from generateKeys_resets_derived [OF rj sa ne(1) r0 sb ne(2)] run
  have "alicePublic (state rekeyed_lab) = None \<and> bobPublic (state rekeyed_lab) = None
      \<and> sharedSecretA (state rekeyed_lab) = None \<and> sharedSecretB (state rekeyed_lab) = None"
    by blast
  moreover have "invQ \<lparr>qw = 0, qx = 0, qy = 0, qz = 0\<rparr> (Some (modulus (state derived_lab))) = Some Null"
    by (simp add: m invQ_zero)
  ultimately show ?thesis using sa sb before run by blast
qed


end
